theory Spec2Isabelle
  imports Complex_Main
begin

section \<open>The listing store (src/database/models.py, src/database/repository.py)\<close>

text \<open>
  The two tables of the store are lists of rows in insertion order. A timestamp is a
  reading of the clock (\<open>datetime.utcnow()\<close>), an integer; the reading is an argument
  of every operation that takes one. Each repository method opens its own session and
  commits before it returns, so a method is a function from the store to a result and
  the store after it; an exception leaves the store as it was (nothing was committed)
  and is the \<open>Inl\<close> branch of the result.
\<close>

datatype ApplicationStatus = PENDING | APPLIED | EASY_APPLY | EXTERNAL | SKIPPED | FAILED

type_synonym datetime = int

record Job =
  Job_id :: nat
  linkedin_job_id :: string
  title :: string
  company :: string
  location :: "string option"
  description :: "string option"
  job_url :: "string option"
  posted_date :: "string option"
  experience_level :: "string option"
  employment_type :: "string option"
  salary_range :: "string option"
  applicant_count :: "string option"
  is_easy_apply :: bool
  scraped_at :: datetime
  search_keyword :: "string option"

record Application =
  Application_id :: nat
  job_id :: nat
  status :: ApplicationStatus
  applied_at :: "datetime option"
  cover_letter :: "string option"
  resume_used :: "string option"
  notes_text :: "string option"
  error_message :: "string option"

text \<open>
  The dictionary handed to \<open>Job(**job_data)\<close>: every key may be absent (\<open>None\<close>).
\<close>

record job_data =
  jd_linkedin_job_id :: "string option"
  jd_title :: "string option"
  jd_company :: "string option"
  jd_location :: "string option"
  jd_description :: "string option"
  jd_job_url :: "string option"
  jd_posted_date :: "string option"
  jd_experience_level :: "string option"
  jd_employment_type :: "string option"
  jd_salary_range :: "string option"
  jd_applicant_count :: "string option"
  jd_is_easy_apply :: "bool option"
  jd_scraped_at :: "datetime option"
  jd_search_keyword :: "string option"

record store =
  jobs :: "Job list"
  applications :: "Application list"

datatype error = IntegrityError | PlaywrightError | TimeoutError

definition empty_store :: store where
  "empty_store = \<lparr>jobs = [], applications = []\<rparr>"

text \<open>The autoincremented primary key: one more than the largest key of the table.\<close>

definition next_id :: "nat list \<Rightarrow> nat" where
  "next_id ids = Suc (foldr max ids 0)"

subsection \<open>Job operations\<close>

definition job_exists :: "store \<Rightarrow> string \<Rightarrow> bool" where
  "job_exists s lid = (find (\<lambda>j. linkedin_job_id j = lid) (jobs s) \<noteq> None)"

text \<open>\<open>job_data.get("linkedin_job_id", "")\<close>\<close>

definition get_linkedin_job_id :: "job_data \<Rightarrow> string" where
  "get_linkedin_job_id jd = (case jd_linkedin_job_id jd of None \<Rightarrow> [] | Some l \<Rightarrow> l)"

text \<open>
  \<open>Job(**job_data)\<close>, \<open>session.add(job)\<close> and the flush that writes the row. The table
  declares \<open>linkedin_job_id\<close>, \<open>title\<close> and \<open>company\<close> \<open>nullable=False\<close> and
  \<open>linkedin_job_id\<close> \<open>unique=True\<close>: a row that breaks either raises
  \<open>IntegrityError\<close>. \<open>is_easy_apply\<close> defaults to \<open>False\<close> and \<open>scraped_at\<close> to the
  clock reading.
\<close>

definition insert_job :: "datetime \<Rightarrow> job_data \<Rightarrow> store \<Rightarrow> error + (Job \<times> store)" where
  "insert_job now jd s =
     (case (jd_linkedin_job_id jd, jd_title jd, jd_company jd) of
        (Some l, Some t, Some c) \<Rightarrow>
          if job_exists s l then Inl IntegrityError
          else
            let j = \<lparr>Job_id = next_id (map Job_id (jobs s)),
                     linkedin_job_id = l, title = t, company = c,
                     location = jd_location jd, description = jd_description jd,
                     job_url = jd_job_url jd, posted_date = jd_posted_date jd,
                     experience_level = jd_experience_level jd,
                     employment_type = jd_employment_type jd,
                     salary_range = jd_salary_range jd,
                     applicant_count = jd_applicant_count jd,
                     is_easy_apply = (case jd_is_easy_apply jd of None \<Rightarrow> False | Some b \<Rightarrow> b),
                     scraped_at = (case jd_scraped_at jd of None \<Rightarrow> now | Some t \<Rightarrow> t),
                     search_keyword = jd_search_keyword jd\<rparr>
            in Inr (j, s\<lparr>jobs := jobs s @ [j]\<rparr>)
      | _ \<Rightarrow> Inl IntegrityError)"

definition add_job :: "datetime \<Rightarrow> job_data \<Rightarrow> store \<Rightarrow> error + (Job option \<times> store)" where
  "add_job now jd s =
     (if job_exists s (get_linkedin_job_id jd) then Inr (None, s)
      else case insert_job now jd s of
             Inl e \<Rightarrow> Inl e
           | Inr (j, s') \<Rightarrow> Inr (Some j, s'))"

text \<open>
  The loop of \<open>add_jobs_batch\<close> runs in one session. The session autoflushes before each
  query, so the existence check sees the rows added earlier in the same batch. \<open>now i\<close>
  is the clock reading when the \<open>i\<close>-th item is written. An exception inside the loop
  leaves the \<open>with\<close> block before \<open>session.commit()\<close>: the whole batch is rolled back.
\<close>

fun add_jobs_batch_loop ::
  "(nat \<Rightarrow> datetime) \<Rightarrow> nat \<Rightarrow> job_data list \<Rightarrow> Job list \<Rightarrow> store \<Rightarrow> error + (Job list \<times> store)"
where
  "add_jobs_batch_loop now i [] added_jobs s = Inr (added_jobs, s)"
| "add_jobs_batch_loop now i (jd # jobs_data) added_jobs s =
     (if job_exists s (get_linkedin_job_id jd)
      then add_jobs_batch_loop now (Suc i) jobs_data added_jobs s
      else case insert_job (now i) jd s of
             Inl e \<Rightarrow> Inl e
           | Inr (j, s') \<Rightarrow> add_jobs_batch_loop now (Suc i) jobs_data (added_jobs @ [j]) s')"

definition add_jobs_batch ::
  "(nat \<Rightarrow> datetime) \<Rightarrow> job_data list \<Rightarrow> store \<Rightarrow> error + (Job list \<times> store)"
where
  "add_jobs_batch now jobs_data s = add_jobs_batch_loop now 0 jobs_data [] s"

definition get_job_count :: "store \<Rightarrow> nat" where
  "get_job_count s = length (jobs s)"

text \<open>
  \<open>get_unapplied_easy_apply_jobs\<close>: the subquery collects the \<open>job_id\<close> of every
  application whose status is applied, easy_apply or skipped; the query keeps the
  easy-apply jobs whose id is not among them, orders them by \<open>scraped_at\<close> descending
  (rows with equal timestamps stay in table order) and keeps the first \<open>limit\<close>.
\<close>

definition applied_job_ids :: "store \<Rightarrow> nat list" where
  "applied_job_ids s =
     map job_id (filter (\<lambda>a. status a \<in> set [APPLIED, EASY_APPLY, SKIPPED]) (applications s))"

definition get_unapplied_easy_apply_jobs :: "nat \<Rightarrow> store \<Rightarrow> Job list" where
  "get_unapplied_easy_apply_jobs limit s =
     take limit
       (sort_key (\<lambda>j. - scraped_at j)
          (filter (\<lambda>j. is_easy_apply j = True \<and> Job_id j \<notin> set (applied_job_ids s)) (jobs s)))"

subsection \<open>Application operations\<close>

definition success_terminal :: "ApplicationStatus \<Rightarrow> bool" where
  "success_terminal st = (st \<in> set [APPLIED, EASY_APPLY])"

definition create_application ::
  "datetime \<Rightarrow> nat \<Rightarrow> ApplicationStatus \<Rightarrow> string option \<Rightarrow> string option \<Rightarrow> string option
     \<Rightarrow> store \<Rightarrow> Application \<times> store"
where
  "create_application now jid st cl ru nt s =
     (let application =
            \<lparr>Application_id = next_id (map Application_id (applications s)),
             job_id = jid, status = st,
             applied_at = (if success_terminal st then Some now else None),
             cover_letter = cl, resume_used = ru, notes_text = nt, error_message = None\<rparr>
      in (application, s\<lparr>applications := applications s @ [application]\<rparr>))"

text \<open>Python's truth value of an optional string: neither \<open>None\<close> nor empty.\<close>

definition truthy :: "string option \<Rightarrow> bool" where
  "truthy x = (case x of None \<Rightarrow> False | Some t \<Rightarrow> t \<noteq> [])"

text \<open>
  The assignments \<open>update_application_status\<close> makes to the row it found. The commit
  writes them to the rows of the table with that primary key.
\<close>

definition set_status ::
  "datetime \<Rightarrow> ApplicationStatus \<Rightarrow> string option \<Rightarrow> Application \<Rightarrow> Application"
where
  "set_status now st em application =
     (let a1 = application\<lparr>status := st\<rparr>;
          a2 = (if truthy em then a1\<lparr>error_message := em\<rparr> else a1)
      in if success_terminal st then a2\<lparr>applied_at := Some now\<rparr> else a2)"

definition update_application_status ::
  "datetime \<Rightarrow> nat \<Rightarrow> ApplicationStatus \<Rightarrow> string option \<Rightarrow> store \<Rightarrow> Application option \<times> store"
where
  "update_application_status now application_id st em s =
     (case find (\<lambda>a. Application_id a = application_id) (applications s) of
        None \<Rightarrow> (None, s)
      | Some application \<Rightarrow>
          (Some (set_status now st em application),
           s\<lparr>applications :=
                map (\<lambda>a. if Application_id a = application_id then set_status now st em a else a)
                  (applications s)\<rparr>))"

record stats =
  total_jobs :: nat
  total_applications :: nat
  applied :: nat
  easy_apply :: nat
  pending :: nat
  skipped :: nat
  failed :: nat

definition count_status :: "ApplicationStatus \<Rightarrow> store \<Rightarrow> nat" where
  "count_status st s = length (filter (\<lambda>a. status a = st) (applications s))"

definition get_application_stats :: "store \<Rightarrow> stats" where
  "get_application_stats s =
     \<lparr>total_jobs = length (jobs s),
      total_applications = length (applications s),
      applied = count_status APPLIED s,
      easy_apply = count_status EASY_APPLY s,
      pending = count_status PENDING s,
      skipped = count_status SKIPPED s,
      failed = count_status FAILED s\<rparr>"

subsection \<open>Sequences of repository operations\<close>

text \<open>
  A call of one of the writing methods of the repository, with its arguments and the
  clock readings it takes. \<open>apply_op\<close> is the store after the call; a call that raises
  leaves the store as it was. \<open>run_ops\<close> runs a sequence of calls from left to right.
\<close>

datatype store_op =
    AddJob datetime job_data
  | AddJobsBatch "nat \<Rightarrow> datetime" "job_data list"
  | CreateApplication datetime nat ApplicationStatus "string option" "string option" "string option"
  | UpdateApplicationStatus datetime nat ApplicationStatus "string option"

fun apply_op :: "store_op \<Rightarrow> store \<Rightarrow> store" where
  "apply_op (AddJob now jd) s = (case add_job now jd s of Inl e \<Rightarrow> s | Inr (r, s') \<Rightarrow> s')"
| "apply_op (AddJobsBatch now jds) s =
     (case add_jobs_batch now jds s of Inl e \<Rightarrow> s | Inr (r, s') \<Rightarrow> s')"
| "apply_op (CreateApplication now jid st cl ru nt) s = snd (create_application now jid st cl ru nt s)"
| "apply_op (UpdateApplicationStatus now aid st em) s = snd (update_application_status now aid st em s)"

definition run_ops :: "store_op list \<Rightarrow> store \<Rightarrow> store" where
  "run_ops ops s = fold apply_op ops s"

text \<open>
  \<open>leaves_success op s\<close>: the call is an \<open>update_application_status\<close> that gives a
  status that is not a success terminal to a row whose status is one.
  \<open>never_leaves_success ops s\<close>: no call of the sequence, run from \<open>s\<close>, does so.
\<close>

fun leaves_success :: "store_op \<Rightarrow> store \<Rightarrow> bool" where
  "leaves_success (UpdateApplicationStatus now aid st em) s =
     (\<not> success_terminal st
      \<and> list_ex (\<lambda>a. Application_id a = aid \<and> success_terminal (status a)) (applications s))"
| "leaves_success _ s = False"

fun never_leaves_success :: "store_op list \<Rightarrow> store \<Rightarrow> bool" where
  "never_leaves_success [] s = True"
| "never_leaves_success (op # ops) s =
     (\<not> leaves_success op s \<and> never_leaves_success ops (apply_op op s))"

subsection \<open>Test data (tests/test_database.py)\<close>

text \<open>
  The dictionaries the tests hand to \<open>add_job\<close> and \<open>add_jobs_batch\<close>: the keys
  \<open>linkedin_job_id\<close>, \<open>title\<close> and \<open>company\<close>, and \<open>is_easy_apply\<close> where the test
  gives it.
\<close>

definition job_dict :: "string \<Rightarrow> string \<Rightarrow> string \<Rightarrow> bool option \<Rightarrow> job_data" where
  "job_dict l t c e =
     \<lparr>jd_linkedin_job_id = Some l, jd_title = Some t, jd_company = Some c,
      jd_location = None, jd_description = None, jd_job_url = None, jd_posted_date = None,
      jd_experience_level = None, jd_employment_type = None, jd_salary_range = None,
      jd_applicant_count = None, jd_is_easy_apply = e, jd_scraped_at = None,
      jd_search_keyword = None\<rparr>"

section \<open>Strings\<close>

text \<open>
  Python strings are modelled as lists of characters. \<open>lower\<close> is \<open>str.lower()\<close> on the
  ASCII letters; every other character is left as it is. \<open>contains text needle\<close> is
  \<open>needle in text\<close>.
\<close>

definition lower_char :: "char \<Rightarrow> char" where
  "lower_char c =
     (case map_of (zip ''ABCDEFGHIJKLMNOPQRSTUVWXYZ'' ''abcdefghijklmnopqrstuvwxyz'') c of
        None \<Rightarrow> c
      | Some d \<Rightarrow> d)"

definition lower :: "string \<Rightarrow> string" where
  "lower s = map lower_char s"

fun startswith :: "'a list \<Rightarrow> 'a list \<Rightarrow> bool" where
  "startswith xs [] = True"
| "startswith [] (y # ys) = False"
| "startswith (x # xs) (y # ys) = (x = y \<and> startswith xs ys)"

fun contains :: "'a list \<Rightarrow> 'a list \<Rightarrow> bool" where
  "contains [] needle = (needle = [])"
| "contains (x # xs) needle = (startswith (x # xs) needle \<or> contains xs needle)"

text \<open>\<open>x or ''\<close> for an optional string.\<close>

definition or_empty :: "string option \<Rightarrow> string" where
  "or_empty x = (case x of None \<Rightarrow> [] | Some t \<Rightarrow> t)"

section \<open>The resume selector (src/resume_selector.py)\<close>

text \<open>
  \<open>resume_profiles\<close> is a Python dictionary, which keeps its keys in insertion order: a
  list of pairs of a profile name and its data. \<open>dict_set\<close> is the assignment
  \<open>d[name] = v\<close>: a key already present keeps its place. The weight is a float; it is
  modelled as a real number. \<open>resume_file_path\<close> stands for
  \<open>lambda f: str(self.resumes_dir / f)\<close>.
\<close>

record profile =
  profile_file :: string
  profile_keywords :: "string list"
  profile_weight :: real

record ResumeSelector =
  resume_file_path :: "string \<Rightarrow> string"
  resume_profiles :: "(string \<times> profile) list"

fun dict_set :: "('k \<times> 'v) list \<Rightarrow> 'k \<Rightarrow> 'v \<Rightarrow> ('k \<times> 'v) list" where
  "dict_set [] k v = [(k, v)]"
| "dict_set ((k', v') # d) k v = (if k' = k then (k, v) # d else (k', v') # dict_set d k v)"

definition profiles :: "(string \<times> profile) list" where
  "profiles =
     [(''backend'',
       \<lparr>profile_file = ''Backend.pdf'',
        profile_keywords =
          [''backend'', ''python'', ''django'', ''flask'', ''fastapi'', ''api'',
           ''rest'', ''graphql'', ''database'', ''sql'', ''postgresql'', ''mysql'',
           ''mongodb'', ''redis'', ''microservices'', ''docker'', ''kubernetes'',
           ''aws'', ''cloud'', ''serverless'', ''node.js'', ''express'', ''spring'',
           ''java'', ''.net'', ''c#'', ''ruby'', ''rails'', ''php'', ''laravel''],
        profile_weight = 1\<rparr>),
      (''embedded'',
       \<lparr>profile_file = ''embedded.pdf'',
        profile_keywords =
          [''embedded'', ''firmware'', ''c'', ''c++'', ''microcontroller'', ''mcu'',
           ''arm'', ''rtos'', ''real-time'', ''iot'', ''hardware'', ''fpga'', ''vhdl'',
           ''verilog'', ''assembly'', ''linux kernel'', ''device driver'', ''uart'',
           ''spi'', ''i2c'', ''can'', ''automotive'', ''robotics'', ''raspberry pi'',
           ''arduino'', ''stm32'', ''esp32'', ''sensor'', ''actuator''],
        profile_weight = 1\<rparr>)]"

text \<open>
  \<open>_load_resume_profiles\<close> keeps the profiles whose file exists; \<open>exists f\<close> is
  \<open>(self.resumes_dir / f).exists()\<close>.
\<close>

definition load_resume_profiles :: "(string \<Rightarrow> bool) \<Rightarrow> (string \<times> profile) list" where
  "load_resume_profiles exists =
     fold (\<lambda>(profile_name, profile_data) d.
             if exists (profile_file profile_data) then dict_set d profile_name profile_data else d)
       profiles []"

definition add_custom_profile ::
  "(string \<Rightarrow> bool) \<Rightarrow> string \<Rightarrow> string \<Rightarrow> string list \<Rightarrow> real \<Rightarrow> ResumeSelector \<Rightarrow> ResumeSelector"
where
  "add_custom_profile exists name filename kws w sel =
     (if exists filename
      then sel\<lparr>resume_profiles :=
                 dict_set (resume_profiles sel) name
                   \<lparr>profile_file = filename, profile_keywords = map lower kws, profile_weight = w\<rparr>\<rparr>
      else sel)"

text \<open>The entry of the \<open>scores\<close> dictionary computed for one profile.\<close>

record score_entry =
  score :: real
  matched_keywords :: "string list"
  score_file :: string

definition search_text_of :: "string \<Rightarrow> string option \<Rightarrow> string option \<Rightarrow> string" where
  "search_text_of job_title job_description company_name =
     lower (job_title @ '' '' @ or_empty job_description @ '' '' @ or_empty company_name)"

definition score_profile :: "string \<Rightarrow> profile \<Rightarrow> score_entry" where
  "score_profile search_text profile_data =
     (let matched = filter (\<lambda>keyword. contains search_text (lower keyword)) (profile_keywords profile_data)
      in \<lparr>score = real (length matched) * profile_weight profile_data,
          matched_keywords = matched,
          score_file = profile_file profile_data\<rparr>)"

text \<open>
  Python's \<open>max(items, key=...)\<close>: the first item whose key no later item exceeds; the
  running best is replaced only by a strictly greater key.
\<close>

fun max_by :: "('a \<Rightarrow> real) \<Rightarrow> 'a \<Rightarrow> 'a list \<Rightarrow> 'a" where
  "max_by key best [] = best"
| "max_by key best (x # xs) = max_by key (if key best < key x then x else best) xs"

definition select_resume ::
  "ResumeSelector \<Rightarrow> string \<Rightarrow> string option \<Rightarrow> string option \<Rightarrow> string option"
where
  "select_resume sel job_title job_description company_name =
     (case resume_profiles sel of
        [] \<Rightarrow> None
      | [(profile_name, profile_data)] \<Rightarrow> Some (resume_file_path sel (profile_file profile_data))
      | (first_name, default_profile) # _ \<Rightarrow>
          let search_text = search_text_of job_title job_description company_name;
              scores = map (\<lambda>(profile_name, profile_data).
                              (profile_name, score_profile search_text profile_data))
                         (resume_profiles sel)
          in if \<not> list_ex (\<lambda>(profile_name, s). 0 < score s) scores
             then Some (resume_file_path sel (profile_file default_profile))
             else (case scores of
                     [] \<Rightarrow> None
                   | best # rest \<Rightarrow>
                       Some (resume_file_path sel
                               (score_file (snd (max_by (\<lambda>(profile_name, s). score s) best rest))))))"

definition get_resume_by_name :: "ResumeSelector \<Rightarrow> string \<Rightarrow> string option" where
  "get_resume_by_name sel name =
     (case map_of (resume_profiles sel) name of
        None \<Rightarrow> None
      | Some profile_data \<Rightarrow> Some (resume_file_path sel (profile_file profile_data)))"

definition list_available_resumes :: "ResumeSelector \<Rightarrow> string list" where
  "list_available_resumes sel = map fst (resume_profiles sel)"

section \<open>The application engine (src/linkedin/job_applier.py)\<close>

subsection \<open>The browsing session\<close>

text \<open>
  The browser page, the file system and the clock are outside the program. \<open>'p\<close> is the
  state of that world and \<open>'e\<close> the type of element handles. An awaited call is a
  function from the world to the world after it and either the value returned or the
  exception raised.
\<close>

type_synonym ('a, 'p) io = "'p \<Rightarrow> (error + 'a) \<times> 'p"

definition return_io :: "'a \<Rightarrow> ('a, 'p) io" where
  "return_io a p = (Inr a, p)"

definition bind_io :: "('a, 'p) io \<Rightarrow> ('a \<Rightarrow> ('b, 'p) io) \<Rightarrow> ('b, 'p) io" where
  "bind_io m f p = (case m p of (Inl e, p') \<Rightarrow> (Inl e, p') | (Inr a, p') \<Rightarrow> f a p')"

text \<open>\<open>try: body  except Exception: continue\<close> inside a \<open>for\<close> loop.\<close>

definition try_continue :: "(unit, 'p) io \<Rightarrow> (unit, 'p) io" where
  "try_continue m p = (case m p of (Inl e, p') \<Rightarrow> (Inr (), p') | (Inr u, p') \<Rightarrow> (Inr (), p'))"

fun for_each :: "('a \<Rightarrow> (unit, 'p) io) \<Rightarrow> 'a list \<Rightarrow> (unit, 'p) io" where
  "for_each body [] = return_io ()"
| "for_each body (x # xs) = bind_io (body x) (\<lambda>_. for_each body xs)"

record ('p, 'e) Page =
  goto :: "string option \<Rightarrow> (unit, 'p) io"
  wait_for_timeout :: "nat \<Rightarrow> (unit, 'p) io"
  query_selector :: "string \<Rightarrow> ('e option, 'p) io"
  query_selector_all :: "string \<Rightarrow> ('e list, 'p) io"
  inner_text :: "'e \<Rightarrow> (string, 'p) io"
  click :: "'e \<Rightarrow> (unit, 'p) io"
  set_input_files :: "'e \<Rightarrow> string \<Rightarrow> (unit, 'p) io"
  fill :: "'e \<Rightarrow> string \<Rightarrow> (unit, 'p) io"
  input_value :: "'e \<Rightarrow> (string, 'p) io"
  get_attribute :: "'e \<Rightarrow> string \<Rightarrow> (string option, 'p) io"
  element_query_selector :: "'e \<Rightarrow> string \<Rightarrow> ('e option, 'p) io"
  is_checked :: "'e \<Rightarrow> (bool, 'p) io"
  path_exists :: "string \<Rightarrow> 'p \<Rightarrow> bool"
  utcnow :: "'p \<Rightarrow> datetime"
  sleep :: "nat \<Rightarrow> 'p \<Rightarrow> 'p"
  ensure_logged_in :: "(unit, 'p) io"
  auth_close :: "'p \<Rightarrow> 'p"

record Settings =
  resume_path :: string
  settings_location :: string
  max_applications_per_run :: nat
  auto_apply_enabled :: bool

text \<open>
  The fields of \<open>JobApplier\<close> that do not change: the settings, the resume selector
  (\<open>None\<close> unless \<open>use_smart_resume_selection\<close>) and the cover letter generator.
\<close>

record 'p JobApplier =
  settings :: Settings
  resume_selector :: "ResumeSelector option"
  cover_letter_generator :: "(string \<Rightarrow> string \<Rightarrow> string \<Rightarrow> (string option, 'p) io) option"

record run_stats =
  attempted :: nat
  successful :: nat
  stats_skipped :: nat
  stats_failed :: nat

subsection \<open>\<open>_fill_application_step\<close>\<close>

definition fill_resume :: "('p, 'e) Page \<Rightarrow> 'p JobApplier \<Rightarrow> Job \<Rightarrow> (unit, 'p) io" where
  "fill_resume pg ap job =
     bind_io (query_selector pg ''input[type='file'][name*='resume'], input[accept*='.pdf']'')
       (\<lambda>resume_input.
          case resume_input of
            None \<Rightarrow> return_io ()
          | Some inp \<Rightarrow>
              (let path =
                     (case resume_selector ap of
                        Some sel \<Rightarrow>
                          (let selected_resume =
                                 select_resume sel (title job) (description job) (Some (company job))
                           in if truthy selected_resume then or_empty selected_resume
                              else resume_path (settings ap))
                      | None \<Rightarrow> resume_path (settings ap))
               in (\<lambda>p. if path_exists pg path p then set_input_files pg inp path p
                        else (Inr (), p))))"

definition fill_cover_letter :: "('p, 'e) Page \<Rightarrow> 'p JobApplier \<Rightarrow> Job \<Rightarrow> (unit, 'p) io" where
  "fill_cover_letter pg ap job =
     bind_io
       (query_selector pg
          ''textarea[name*='cover'], textarea[aria-label*='cover letter'], textarea[id*='cover']'')
       (\<lambda>cover_letter_input.
          case (cover_letter_input, cover_letter_generator ap) of
            (Some inp, Some generate) \<Rightarrow>
              bind_io (generate (title job) (company job) (or_empty (description job)))
                (\<lambda>letter. if truthy letter then fill pg inp (or_empty letter) else return_io ())
          | _ \<Rightarrow> return_io ())"

definition fill_phone :: "('p, 'e) Page \<Rightarrow> (unit, 'p) io" where
  "fill_phone pg =
     bind_io
       (query_selector pg ''input[name*='phone'], input[aria-label*='phone'], input[id*='phone']'')
       (\<lambda>phone_input.
          case phone_input of
            None \<Rightarrow> return_io ()
          | Some inp \<Rightarrow> bind_io (input_value pg inp) (\<lambda>current_value. return_io ()))"

definition fill_required_field :: "('p, 'e) Page \<Rightarrow> 'p JobApplier \<Rightarrow> 'e \<Rightarrow> (unit, 'p) io" where
  "fill_required_field pg ap required_field =
     bind_io (get_attribute pg required_field ''type'')
       (\<lambda>field_type.
          bind_io (if field_type \<noteq> Some ''select''
                   then bind_io (input_value pg required_field) (\<lambda>v. return_io (Some v))
                   else return_io None)
            (\<lambda>current_value.
               if truthy current_value then return_io ()
               else
                 bind_io (get_attribute pg required_field ''id'')
                   (\<lambda>field_id.
                      if \<not> truthy field_id then return_io ()
                      else
                        bind_io
                          (query_selector pg
                             (''label[for='' @ [CHR 0x27] @ or_empty field_id @ [CHR 0x27] @ '']''))
                          (\<lambda>label.
                             case label of
                               None \<Rightarrow> return_io ()
                             | Some l \<Rightarrow>
                                 bind_io (inner_text pg l)
                                   (\<lambda>label_text.
                                      let label_lower = lower label_text
                                      in if contains label_lower ''year''
                                            \<and> contains label_lower ''experience''
                                         then fill pg required_field ''3''
                                         else if contains label_lower ''city''
                                         then fill pg required_field
                                                (takeWhile (\<lambda>c. c \<noteq> CHR '','')
                                                   (settings_location (settings ap)))
                                         else return_io ())))))"

definition fill_radio_group :: "('p, 'e) Page \<Rightarrow> 'e \<Rightarrow> (unit, 'p) io" where
  "fill_radio_group pg radio_group =
     bind_io (element_query_selector pg radio_group ''legend'')
       (\<lambda>legend.
          case legend of
            None \<Rightarrow> return_io ()
          | Some _ \<Rightarrow>
              bind_io
                (element_query_selector pg radio_group
                   ''input[value='Yes'], input[value='yes'], label:has-text('Yes') input'')
                (\<lambda>yes_option.
                   case yes_option of
                     None \<Rightarrow> return_io ()
                   | Some y \<Rightarrow>
                       bind_io (is_checked pg y)
                         (\<lambda>checked. if \<not> checked then click pg y else return_io ())))"

definition fill_application_step :: "('p, 'e) Page \<Rightarrow> 'p JobApplier \<Rightarrow> Job \<Rightarrow> (unit, 'p) io" where
  "fill_application_step pg ap job =
     bind_io (fill_resume pg ap job) (\<lambda>_.
     bind_io (fill_cover_letter pg ap job) (\<lambda>_.
     bind_io (fill_phone pg) (\<lambda>_.
     bind_io
       (query_selector_all pg
          (''.jobs-easy-apply-form-section__grouping input[required], ''
           @ ''.jobs-easy-apply-form-section__grouping select[required]''))
       (\<lambda>required_fields.
     bind_io (for_each (\<lambda>required_field. try_continue (fill_required_field pg ap required_field)) required_fields)
       (\<lambda>_.
     bind_io (query_selector_all pg ''.jobs-easy-apply-form-section__grouping fieldset'')
       (\<lambda>radio_groups.
          for_each (\<lambda>radio_group. try_continue (fill_radio_group pg radio_group)) radio_groups))))))"

subsection \<open>\<open>_complete_application_modal\<close>\<close>

text \<open>
  One pass through the body of the \<open>while\<close> loop either returns a value from the
  function or goes on to the next iteration (by \<open>continue\<close> or by reaching the end of
  the body). Each check below is one \<open>if\<close> block of the body: \<open>Some r\<close> when the block
  returns or continues, \<open>None\<close> when control falls through to the next block.
\<close>

datatype step_result = Return bool | Continue

definition max_steps :: nat where
  "max_steps = 10"

definition or_else ::
  "(step_result option, 'p) io \<Rightarrow> (step_result, 'p) io \<Rightarrow> (step_result, 'p) io"
where
  "or_else m rest = bind_io m (\<lambda>r. case r of Some x \<Rightarrow> return_io x | None \<Rightarrow> rest)"

definition check_success :: "('p, 'e) Page \<Rightarrow> (step_result option, 'p) io" where
  "check_success pg =
     bind_io (query_selector pg ''[class*='post-apply'], .artdeco-modal__content h2'')
       (\<lambda>success_indicator.
          case success_indicator of
            None \<Rightarrow> return_io None
          | Some ind \<Rightarrow>
              bind_io (inner_text pg ind)
                (\<lambda>text.
                   if contains (lower text) ''application sent'' \<or> contains (lower text) ''applied''
                   then return_io (Some (Return True))
                   else return_io None))"

definition check_submit ::
  "('p, 'e) Page \<Rightarrow> 'p JobApplier \<Rightarrow> Job \<Rightarrow> (step_result option, 'p) io"
where
  "check_submit pg ap job =
     bind_io
       (query_selector pg
          (''button[aria-label='Submit application'], button[aria-label='Review'], ''
           @ ''.jobs-easy-apply-content footer button.artdeco-button--primary''))
       (\<lambda>submit_btn.
          case submit_btn of
            None \<Rightarrow> return_io None
          | Some btn \<Rightarrow>
              bind_io (inner_text pg btn)
                (\<lambda>btn_text.
                   if contains (lower btn_text) ''submit''
                   then bind_io (click pg btn) (\<lambda>_.
                        bind_io (wait_for_timeout pg 3000) (\<lambda>_.
                        return_io (Some (Return True))))
                   else if contains (lower btn_text) ''next'' \<or> contains (lower btn_text) ''continue''
                   then bind_io (fill_application_step pg ap job) (\<lambda>_.
                        bind_io (click pg btn) (\<lambda>_.
                        return_io (Some Continue)))
                   else if contains (lower btn_text) ''review''
                   then bind_io (click pg btn) (\<lambda>_. return_io (Some Continue))
                   else return_io None))"

definition check_next ::
  "('p, 'e) Page \<Rightarrow> 'p JobApplier \<Rightarrow> Job \<Rightarrow> (step_result option, 'p) io"
where
  "check_next pg ap job =
     bind_io
       (query_selector pg
          ''button[aria-label='Continue to next step'], button[data-easy-apply-next-button]'')
       (\<lambda>next_btn.
          case next_btn of
            None \<Rightarrow> return_io None
          | Some btn \<Rightarrow>
              bind_io (fill_application_step pg ap job) (\<lambda>_.
              bind_io (click pg btn) (\<lambda>_.
              return_io (Some Continue))))"

definition check_dismiss :: "('p, 'e) Page \<Rightarrow> (step_result option, 'p) io" where
  "check_dismiss pg =
     bind_io (query_selector pg ''button[aria-label='Dismiss'], .artdeco-modal__dismiss'')
       (\<lambda>dismiss_btn.
          case dismiss_btn of
            None \<Rightarrow> return_io None
          | Some btn \<Rightarrow>
              bind_io (query_selector pg ''.artdeco-modal__content'')
                (\<lambda>modal_content.
                   case modal_content of
                     None \<Rightarrow> return_io None
                   | Some content \<Rightarrow>
                       bind_io (inner_text pg content)
                         (\<lambda>content_text.
                            if contains (lower content_text) ''application sent''
                            then bind_io (click pg btn) (\<lambda>_. return_io (Some (Return True)))
                            else return_io None)))"

definition check_errors :: "('p, 'e) Page \<Rightarrow> (unit, 'p) io" where
  "check_errors pg =
     bind_io (query_selector pg ''.artdeco-inline-feedback--error, [class*='error']'')
       (\<lambda>error_elem.
          case error_elem of
            None \<Rightarrow> return_io ()
          | Some el \<Rightarrow> bind_io (inner_text pg el) (\<lambda>error_text. return_io ()))"

definition modal_step :: "('p, 'e) Page \<Rightarrow> 'p JobApplier \<Rightarrow> Job \<Rightarrow> (step_result, 'p) io" where
  "modal_step pg ap job =
     bind_io (wait_for_timeout pg 1500) (\<lambda>_.
     or_else (check_success pg)
       (or_else (check_submit pg ap job)
          (or_else (check_next pg ap job)
             (or_else (check_dismiss pg)
                (bind_io (check_errors pg) (\<lambda>_. return_io Continue))))))"

text \<open>
  The \<open>while step < max_steps\<close> loop. Besides the outcome and the world, the function
  returns the value of the counter \<open>step\<close> when the function is left: the number of
  iterations that were started.
\<close>

function complete_application_modal_loop ::
  "('p, 'e) Page \<Rightarrow> 'p JobApplier \<Rightarrow> Job \<Rightarrow> nat \<Rightarrow> 'p \<Rightarrow> nat \<times> (error + bool) \<times> 'p"
where
  "complete_application_modal_loop pg ap job step p =
     (if step < max_steps
      then (case modal_step pg ap job p of
              (Inl e, p') \<Rightarrow> (Suc step, Inl e, p')
            | (Inr (Return b), p') \<Rightarrow> (Suc step, Inr b, p')
            | (Inr Continue, p') \<Rightarrow> complete_application_modal_loop pg ap job (Suc step) p')
      else (step, Inr False, p))"
  by pat_completeness auto
termination
  by (relation "measure (\<lambda>(pg, ap, job, step, p). max_steps - step)") auto

definition complete_application_modal ::
  "('p, 'e) Page \<Rightarrow> 'p JobApplier \<Rightarrow> Job \<Rightarrow> (bool, 'p) io"
where
  "complete_application_modal pg ap job p = snd (complete_application_modal_loop pg ap job 0 p)"

subsection \<open>\<open>apply_to_job\<close>\<close>

text \<open>
  \<open>apply_to_job\<close> returns a truth value. \<open>apply_to_job_steps\<close> is the body of its
  \<open>try\<close> block and records which \<open>return\<close> statement was reached; \<open>succeeded\<close> is the
  value that statement returns. An exception anywhere in the body is caught and
  \<open>False\<close> is returned.
\<close>

datatype outcome = AlreadyApplied | NoEasyApplyButton | NotEasyApply | ModalResult bool

fun succeeded :: "outcome \<Rightarrow> bool" where
  "succeeded AlreadyApplied = False"
| "succeeded NoEasyApplyButton = False"
| "succeeded NotEasyApply = False"
| "succeeded (ModalResult success) = success"

definition apply_to_job_steps ::
  "('p, 'e) Page \<Rightarrow> 'p JobApplier \<Rightarrow> Job \<Rightarrow> (outcome, 'p) io"
where
  "apply_to_job_steps pg ap job =
     bind_io (goto pg (job_url job)) (\<lambda>_.
     bind_io (wait_for_timeout pg 3000) (\<lambda>_.
     bind_io (query_selector pg ''[class*='applied'], .jobs-s-apply--fadein'') (\<lambda>already_applied.
     bind_io
       (case already_applied of
          None \<Rightarrow> return_io False
        | Some el \<Rightarrow> bind_io (inner_text pg el) (\<lambda>text. return_io (contains (lower text) ''applied'')))
       (\<lambda>applied_before.
          if applied_before then return_io AlreadyApplied
          else
            bind_io
              (query_selector pg
                 (''.jobs-apply-button, ''
                  @ ''button[data-control-name='jobdetails_topcard_inapply'], ''
                  @ ''button.jobs-s-apply button, ''
                  @ ''.jobs-apply-button--top-card''))
              (\<lambda>easy_apply_btn.
                 case easy_apply_btn of
                   None \<Rightarrow> return_io NoEasyApplyButton
                 | Some btn \<Rightarrow>
                     bind_io (inner_text pg btn)
                       (\<lambda>btn_text.
                          if \<not> contains (lower btn_text) ''easy apply''
                          then return_io NotEasyApply
                          else
                            bind_io (click pg btn) (\<lambda>_.
                            bind_io (wait_for_timeout pg 2000) (\<lambda>_.
                            bind_io (complete_application_modal pg ap job) (\<lambda>success.
                            return_io (ModalResult success))))))))))"

definition apply_to_job :: "('p, 'e) Page \<Rightarrow> 'p JobApplier \<Rightarrow> Job \<Rightarrow> 'p \<Rightarrow> bool \<times> 'p" where
  "apply_to_job pg ap job p =
     (case apply_to_job_steps pg ap job p of
        (Inl e, p') \<Rightarrow> (False, p')
      | (Inr out, p') \<Rightarrow> (succeeded out, p'))"

subsection \<open>\<open>apply_to_jobs\<close> and \<open>run\<close>\<close>

text \<open>
  The state threaded through a batch: the counters of \<open>self.stats\<close>, the store and the
  world. \<open>apply_one\<close> is the body of the \<open>for\<close> loop of \<open>apply_to_jobs\<close>.
\<close>

definition resume_to_use :: "'p JobApplier \<Rightarrow> Job \<Rightarrow> string" where
  "resume_to_use ap job =
     (case resume_selector ap of
        Some sel \<Rightarrow>
          (let selected_resume =
                 select_resume sel (title job) (description job) (Some (company job))
           in if truthy selected_resume then or_empty selected_resume
              else resume_path (settings ap))
      | None \<Rightarrow> resume_path (settings ap))"

definition apply_one ::
  "('p, 'e) Page \<Rightarrow> 'p JobApplier \<Rightarrow> Job \<Rightarrow> run_stats \<times> store \<times> 'p \<Rightarrow> run_stats \<times> store \<times> 'p"
where
  "apply_one pg ap job = (\<lambda>(st, s, p).
     let st1 = st\<lparr>attempted := attempted st + 1\<rparr>;
         (application, s1) =
           create_application (utcnow pg p) (Job_id job) PENDING None
             (Some (resume_to_use ap job)) None s;
         (success, p1) = apply_to_job pg ap job p;
         (st2, s2) =
           (if success
            then (st1\<lparr>successful := successful st1 + 1\<rparr>,
                  snd (update_application_status (utcnow pg p1) (Application_id application)
                         EASY_APPLY None s1))
            else (st1\<lparr>stats_failed := stats_failed st1 + 1\<rparr>,
                  snd (update_application_status (utcnow pg p1) (Application_id application)
                         FAILED (Some ''Application could not be completed'') s1)))
     in (st2, s2, sleep pg 5 p1))"

definition apply_to_jobs ::
  "('p, 'e) Page \<Rightarrow> 'p JobApplier \<Rightarrow> Job list option \<Rightarrow> nat option \<Rightarrow> run_stats \<times> store \<times> 'p
     \<Rightarrow> (error + run_stats) \<times> store \<times> 'p"
where
  "apply_to_jobs pg ap jobs_arg max_applications = (\<lambda>(st, s, p).
     let max_apps =
           (case max_applications of
              None \<Rightarrow> max_applications_per_run (settings ap)
            | Some n \<Rightarrow> if n = 0 then max_applications_per_run (settings ap) else n);
         job_list =
           (case jobs_arg of
              None \<Rightarrow> get_unapplied_easy_apply_jobs max_apps s
            | Some js \<Rightarrow> js)
     in if job_list = [] then (Inr st, s, p)
        else (case ensure_logged_in pg p of
                (Inl e, p') \<Rightarrow> (Inl e, s, p')
              | (Inr _, p') \<Rightarrow>
                  (case fold (apply_one pg ap) (take max_apps job_list) (st, s, p') of
                     (st', s', p'') \<Rightarrow> (Inr st', s', auth_close pg p''))))"

definition run ::
  "('p, 'e) Page \<Rightarrow> 'p JobApplier \<Rightarrow> nat option \<Rightarrow> run_stats \<times> store \<times> 'p
     \<Rightarrow> (error + run_stats) \<times> store \<times> 'p"
where
  "run pg ap max_applications = (\<lambda>(st, s, p).
     if \<not> auto_apply_enabled (settings ap) then (Inr st, s, p)
     else apply_to_jobs pg ap None max_applications (st, s, p))"

subsection \<open>Synthetic pages\<close>

text \<open>
  \<open>inert pg\<close>: a page that never presents a success marker and never exposes a
  recognized action control. Waiting, querying and reading a text never raise; the
  element found by the success selector does not read \<open>application sent\<close> or
  \<open>applied\<close>; the button found by the submit selector reads none of \<open>submit\<close>,
  \<open>next\<close>, \<open>continue\<close> and \<open>review\<close>; the next-step selector finds nothing; the
  content of the modal does not read \<open>application sent\<close>.
\<close>

definition text_of :: "('p, 'e) Page \<Rightarrow> string \<Rightarrow> 'e \<Rightarrow> 'p \<Rightarrow> string" where
  "text_of pg sel el p = lower (projr (fst (inner_text pg el (snd (query_selector pg sel p)))))"

definition inert :: "('p, 'e) Page \<Rightarrow> bool" where
  "inert pg =
     ((\<forall>n p. \<not> isl (fst (wait_for_timeout pg n p)))
      \<and> (\<forall>sel p. \<not> isl (fst (query_selector pg sel p)))
      \<and> (\<forall>el p. \<not> isl (fst (inner_text pg el p)))
      \<and> (\<forall>el p.
            fst (query_selector pg ''[class*='post-apply'], .artdeco-modal__content h2'' p)
              = Inr (Some el) \<longrightarrow>
            \<not> contains
                (text_of pg ''[class*='post-apply'], .artdeco-modal__content h2'' el p)
                ''application sent''
            \<and> \<not> contains
                (text_of pg ''[class*='post-apply'], .artdeco-modal__content h2'' el p)
                ''applied'')
      \<and> (\<forall>el p.
            fst (query_selector pg
                   (''button[aria-label='Submit application'], button[aria-label='Review'], ''
                    @ ''.jobs-easy-apply-content footer button.artdeco-button--primary'') p)
              = Inr (Some el) \<longrightarrow>
            (\<forall>w \<in> set [''submit'', ''next'', ''continue'', ''review''].
               \<not> contains
                   (text_of pg
                      (''button[aria-label='Submit application'], button[aria-label='Review'], ''
                       @ ''.jobs-easy-apply-content footer button.artdeco-button--primary'')
                      el p)
                   w))
      \<and> (\<forall>p.
            fst (query_selector pg
                   ''button[aria-label='Continue to next step'], button[data-easy-apply-next-button]''
                   p)
              = Inr None)
      \<and> (\<forall>el p.
            fst (query_selector pg ''.artdeco-modal__content'' p) = Inr (Some el) \<longrightarrow>
            \<not> contains (text_of pg ''.artdeco-modal__content'' el p) ''application sent''))"

text \<open>
  \<open>blank_page\<close>: a page on which no selector finds an element. Its world is the number
  of calls of \<open>wait_for_timeout\<close> made so far, which is also what its clock shows.
  \<open>looping_page\<close>: a page on which every selector finds an element and every element
  reads \<open>Next\<close>, whatever is clicked. \<open>test_applier\<close> has no resume selector and no
  cover letter generator; \<open>test_job\<close> is the job of the tests.
\<close>

definition blank_page :: "(nat, unit) Page" where
  "blank_page =
     \<lparr>goto = (\<lambda>url p. (Inr (), p)),
      wait_for_timeout = (\<lambda>ms p. (Inr (), Suc p)),
      query_selector = (\<lambda>sel p. (Inr None, p)),
      query_selector_all = (\<lambda>sel p. (Inr [], p)),
      inner_text = (\<lambda>el p. (Inr [], p)),
      click = (\<lambda>el p. (Inr (), p)),
      set_input_files = (\<lambda>el f p. (Inr (), p)),
      fill = (\<lambda>el v p. (Inr (), p)),
      input_value = (\<lambda>el p. (Inr [], p)),
      get_attribute = (\<lambda>el a p. (Inr None, p)),
      element_query_selector = (\<lambda>el sel p. (Inr None, p)),
      is_checked = (\<lambda>el p. (Inr False, p)),
      path_exists = (\<lambda>f p. False),
      utcnow = (\<lambda>p. int p),
      sleep = (\<lambda>n p. p),
      ensure_logged_in = (\<lambda>p. (Inr (), p)),
      auth_close = (\<lambda>p. p)\<rparr>"

definition looping_page :: "(nat, unit) Page" where
  "looping_page =
     blank_page
       \<lparr>query_selector := (\<lambda>sel p. (Inr (Some ()), p)),
        inner_text := (\<lambda>el p. (Inr ''Next'', p))\<rparr>"

definition test_applier :: "nat JobApplier" where
  "test_applier =
     \<lparr>settings =
        \<lparr>resume_path = ''resume.pdf'', settings_location = ''Remote'',
         max_applications_per_run = 10, auto_apply_enabled = True\<rparr>,
      resume_selector = None,
      cover_letter_generator = None\<rparr>"

definition test_job :: Job where
  "test_job =
     \<lparr>Job_id = 1, linkedin_job_id = ''12345'', title = ''Software Engineer'',
      company = ''Test Company'', location = Some ''Remote'', description = None,
      job_url = None, posted_date = None, experience_level = None, employment_type = None,
      salary_range = None, applicant_count = None, is_easy_apply = True, scraped_at = 0,
      search_keyword = Some ''Python''\<rparr>"

section \<open>Properties of the listing store\<close>

subsection \<open>The statistics have no bucket for the external status\<close>

lemma sum_status_counts:
  "length xs =
     length (filter (\<lambda>a. status a = APPLIED) xs) + length (filter (\<lambda>a. status a = EASY_APPLY) xs)
     + length (filter (\<lambda>a. status a = PENDING) xs) + length (filter (\<lambda>a. status a = SKIPPED) xs)
     + length (filter (\<lambda>a. status a = FAILED) xs) + length (filter (\<lambda>a. status a = EXTERNAL) xs)"
proof (induction xs)
  case Nil
  show ?case by simp
next
  case (Cons a xs)
  then show ?case by (cases "status a") simp_all
qed

text \<open>
  Claim C10. \<open>get_application_stats\<close> returns the number of jobs, the number of
  applications, and for each of the statuses applied, easy_apply, pending, skipped and
  failed the number of applications with that status. It has no count for the external
  status: the five counts and the number of external applications add up to
  \<open>total_applications\<close>, so in a store that holds an application whose status is
  external, \<open>total_applications\<close> is strictly greater than the sum of the five counts.
\<close>

theorem stats_external_not_counted:
  "total_jobs (get_application_stats s) = length (jobs s)
   \<and> total_applications (get_application_stats s) = length (applications s)
   \<and> applied (get_application_stats s)
       = length (filter (\<lambda>a. status a = APPLIED) (applications s))
   \<and> easy_apply (get_application_stats s)
       = length (filter (\<lambda>a. status a = EASY_APPLY) (applications s))
   \<and> pending (get_application_stats s)
       = length (filter (\<lambda>a. status a = PENDING) (applications s))
   \<and> skipped (get_application_stats s)
       = length (filter (\<lambda>a. status a = SKIPPED) (applications s))
   \<and> failed (get_application_stats s)
       = length (filter (\<lambda>a. status a = FAILED) (applications s))
   \<and> applied (get_application_stats s) + easy_apply (get_application_stats s)
       + pending (get_application_stats s) + skipped (get_application_stats s)
       + failed (get_application_stats s)
       + length (filter (\<lambda>a. status a = EXTERNAL) (applications s))
       = total_applications (get_application_stats s)
   \<and> ((\<exists>a \<in> set (applications s). status a = EXTERNAL) \<longrightarrow>
        applied (get_application_stats s) + easy_apply (get_application_stats s)
        + pending (get_application_stats s) + skipped (get_application_stats s)
        + failed (get_application_stats s)
        < total_applications (get_application_stats s))"
proof -
  have fields:
    "total_jobs (get_application_stats s) = length (jobs s)"
    "total_applications (get_application_stats s) = length (applications s)"
    "applied (get_application_stats s) = length (filter (\<lambda>a. status a = APPLIED) (applications s))"
    "easy_apply (get_application_stats s)
       = length (filter (\<lambda>a. status a = EASY_APPLY) (applications s))"
    "pending (get_application_stats s) = length (filter (\<lambda>a. status a = PENDING) (applications s))"
    "skipped (get_application_stats s) = length (filter (\<lambda>a. status a = SKIPPED) (applications s))"
    "failed (get_application_stats s) = length (filter (\<lambda>a. status a = FAILED) (applications s))"
    by (simp_all add: get_application_stats_def count_status_def)
  have total: "applied (get_application_stats s) + easy_apply (get_application_stats s)
       + pending (get_application_stats s) + skipped (get_application_stats s)
       + failed (get_application_stats s)
       + length (filter (\<lambda>a. status a = EXTERNAL) (applications s))
       = total_applications (get_application_stats s)"
    unfolding fields using sum_status_counts [of "applications s"] by simp
  have less: "applied (get_application_stats s) + easy_apply (get_application_stats s)
        + pending (get_application_stats s) + skipped (get_application_stats s)
        + failed (get_application_stats s)
        < total_applications (get_application_stats s)"
    if "\<exists>a \<in> set (applications s). status a = EXTERNAL"
  proof -
    from that have "filter (\<lambda>a. status a = EXTERNAL) (applications s) \<noteq> []"
      by (auto simp: filter_empty_conv)
    then have "0 < length (filter (\<lambda>a. status a = EXTERNAL) (applications s))"
      by simp
    with total show ?thesis by linarith
  qed
  from fields total less show ?thesis by blast
qed

theorem stats_external_not_counted_witness:
  "get_application_stats
     (run_ops
       [CreateApplication 1 1 APPLIED None None None, CreateApplication 2 2 EXTERNAL None None None,
        CreateApplication 3 3 PENDING None None None, CreateApplication 4 4 EXTERNAL None None None,
        CreateApplication 5 5 FAILED None None None, CreateApplication 6 6 PENDING None None None]
       empty_store)
   = \<lparr>total_jobs = 0, total_applications = 6, applied = 1, easy_apply = 0, pending = 2,
      skipped = 0, failed = 1\<rparr>"
proof -
  have h: "\<exists>a \<in> set (applications
     (run_ops
       [CreateApplication 1 1 APPLIED None None None, CreateApplication 2 2 EXTERNAL None None None,
        CreateApplication 3 3 PENDING None None None, CreateApplication 4 4 EXTERNAL None None None,
        CreateApplication 5 5 FAILED None None None, CreateApplication 6 6 PENDING None None None]
       empty_store)). status a = EXTERNAL"
    by (simp add: run_ops_def create_application_def empty_store_def Let_def)
  have a: "map status (applications
     (run_ops
       [CreateApplication 1 1 APPLIED None None None, CreateApplication 2 2 EXTERNAL None None None,
        CreateApplication 3 3 PENDING None None None, CreateApplication 4 4 EXTERNAL None None None,
        CreateApplication 5 5 FAILED None None None, CreateApplication 6 6 PENDING None None None]
       empty_store)) = [APPLIED, EXTERNAL, PENDING, EXTERNAL, FAILED, PENDING]"
    by (simp add: run_ops_def create_application_def empty_store_def Let_def)
  have j: "jobs (run_ops
       [CreateApplication 1 1 APPLIED None None None, CreateApplication 2 2 EXTERNAL None None None,
        CreateApplication 3 3 PENDING None None None, CreateApplication 4 4 EXTERNAL None None None,
        CreateApplication 5 5 FAILED None None None, CreateApplication 6 6 PENDING None None None]
       empty_store) = []"
    by (simp add: run_ops_def create_application_def empty_store_def Let_def)
  have c: "length (filter (\<lambda>a. status a = st) xs) = length (filter (\<lambda>x. x = st) (map status xs))"
    for st :: ApplicationStatus and xs :: "Application list"
    by (induction xs) simp_all
  show ?thesis
    using h j
      stats_external_not_counted
        [of "run_ops
       [CreateApplication 1 1 APPLIED None None None, CreateApplication 2 2 EXTERNAL None None None,
        CreateApplication 3 3 PENDING None None None, CreateApplication 4 4 EXTERNAL None None None,
        CreateApplication 5 5 FAILED None None None, CreateApplication 6 6 PENDING None None None]
       empty_store"]
    unfolding c a
    by (simp add: stats.equality)
qed

subsection \<open>Updating the status of an application\<close>

lemma set_status_simps:
  "status (set_status now st em a) = st"
  "Application_id (set_status now st em a) = Application_id a"
  "job_id (set_status now st em a) = job_id a"
  "applied_at (set_status now st em a) = (if success_terminal st then Some now else applied_at a)"
  by (simp_all add: set_status_def Let_def)

lemma applications_update:
  "applications (snd (update_application_status now aid st em s)) =
     map (\<lambda>a. if Application_id a = aid then set_status now st em a else a) (applications s)"
proof (cases "find (\<lambda>a. Application_id a = aid) (applications s)")
  case None
  then have "\<forall>a \<in> set (applications s). Application_id a \<noteq> aid"
    by (auto simp: find_None_iff)
  then have "map (\<lambda>a. if Application_id a = aid then set_status now st em a else a)
               (applications s) = applications s"
    by (intro map_idI) simp
  with None show ?thesis
    by (simp add: update_application_status_def)
next
  case (Some a)
  then show ?thesis
    by (simp add: update_application_status_def)
qed

lemma update_unknown_id:
  assumes "aid \<notin> Application_id ` set (applications s)"
  shows "update_application_status now aid st em s = (None, s)"
proof -
  from assms have "find (\<lambda>a. Application_id a = aid) (applications s) = None"
    by (auto simp: find_None_iff)
  then show ?thesis
    by (simp add: update_application_status_def)
qed

lemma update_known_id:
  assumes "aid \<in> Application_id ` set (applications s)"
  shows "\<exists>a. fst (update_application_status now aid st em s) = Some (set_status now st em a)
             \<and> Application_id a = aid"
proof -
  from assms have "find (\<lambda>a. Application_id a = aid) (applications s) \<noteq> None"
    by (auto simp: find_None_iff)
  then obtain a where f: "find (\<lambda>a. Application_id a = aid) (applications s) = Some a"
    by auto
  then have "Application_id a = aid"
    by (auto simp: find_Some_iff)
  with f show ?thesis
    by (auto simp: update_application_status_def)
qed

lemma set_status_success:
  assumes "success_terminal st"
  shows "set_status now st em a
           = a\<lparr>status := st,
               error_message := (if truthy em then em else error_message a),
               applied_at := Some now\<rparr>"
  using assms by (simp add: set_status_def Let_def)

lemma update_returned_row_stored:
  assumes "fst (update_application_status now aid st em s) = Some a"
  shows "a \<in> set (applications (snd (update_application_status now aid st em s)))"
proof (cases "find (\<lambda>a. Application_id a = aid) (applications s)")
  case None
  with assms show ?thesis
    by (simp add: update_application_status_def)
next
  case (Some a0)
  then have "Application_id a0 = aid" "a0 \<in> set (applications s)"
    by (auto simp: find_Some_iff)
  moreover from Some assms have "a = set_status now st em a0"
    by (simp add: update_application_status_def)
  ultimately show ?thesis
    unfolding applications_update by force
qed

lemma jobs_update:
  "jobs (snd (update_application_status now aid st em s)) = jobs s"
  by (simp add: update_application_status_def split: option.splits)

text \<open>
  Claim C6, as the code has it. \<open>update_application_status\<close> called with an id that no
  application of the store has raises nothing: it returns \<open>None\<close> and leaves the store
  as it was. When a row has the id and the new status is a success terminal, the row
  returned has the id, the new status and \<open>applied_at\<close> set to the time of the call,
  and it is a row of the store; the jobs and the number and order of the applications
  are as before; each row with the id is the row it was with the new status, the
  error message if one is given, and \<open>applied_at\<close> set to the time of the call; every
  other row is as it was.
\<close>

theorem update_application_status_result:
  "(aid \<notin> Application_id ` set (applications s) \<longrightarrow>
      update_application_status now aid st em s = (None, s))
   \<and> (aid \<in> Application_id ` set (applications s) \<and> success_terminal st \<longrightarrow>
        (\<exists>a. fst (update_application_status now aid st em s) = Some a
              \<and> Application_id a = aid \<and> status a = st \<and> applied_at a = Some now
              \<and> a \<in> set (applications (snd (update_application_status now aid st em s))))
        \<and> jobs (snd (update_application_status now aid st em s)) = jobs s
        \<and> length (applications (snd (update_application_status now aid st em s)))
            = length (applications s)
        \<and> (\<forall>i < length (applications s).
              (Application_id (applications s ! i) = aid \<longrightarrow>
                 applications (snd (update_application_status now aid st em s)) ! i
                   = (applications s ! i)
                       \<lparr>status := st,
                        error_message :=
                          (if truthy em then em else error_message (applications s ! i)),
                        applied_at := Some now\<rparr>)
              \<and> (Application_id (applications s ! i) \<noteq> aid \<longrightarrow>
                   applications (snd (update_application_status now aid st em s)) ! i
                     = applications s ! i)))"
proof (intro conjI impI)
  assume "aid \<notin> Application_id ` set (applications s)"
  then show "update_application_status now aid st em s = (None, s)"
    by (rule update_unknown_id)
next
  assume h: "aid \<in> Application_id ` set (applications s) \<and> success_terminal st"
  then obtain a where a:
    "fst (update_application_status now aid st em s) = Some (set_status now st em a)"
    "Application_id a = aid"
    using update_known_id [of aid s now st em] by auto
  from a(1) have "set_status now st em a
                    \<in> set (applications (snd (update_application_status now aid st em s)))"
    by (rule update_returned_row_stored)
  with a h show "\<exists>a. fst (update_application_status now aid st em s) = Some a
                 \<and> Application_id a = aid \<and> status a = st \<and> applied_at a = Some now
                 \<and> a \<in> set (applications (snd (update_application_status now aid st em s)))"
    by (auto simp: set_status_simps)
next
  show "jobs (snd (update_application_status now aid st em s)) = jobs s"
    by (rule jobs_update)
next
  show "length (applications (snd (update_application_status now aid st em s)))
          = length (applications s)"
    by (simp add: applications_update)
next
  assume h: "aid \<in> Application_id ` set (applications s) \<and> success_terminal st"
  then show "\<forall>i < length (applications s).
              (Application_id (applications s ! i) = aid \<longrightarrow>
                 applications (snd (update_application_status now aid st em s)) ! i
                   = (applications s ! i)
                       \<lparr>status := st,
                        error_message :=
                          (if truthy em then em else error_message (applications s ! i)),
                        applied_at := Some now\<rparr>)
              \<and> (Application_id (applications s ! i) \<noteq> aid \<longrightarrow>
                   applications (snd (update_application_status now aid st em s)) ! i
                     = applications s ! i)"
    by (simp add: applications_update set_status_success)
qed

theorem update_application_status_result_witness:
  "update_application_status 9 3 EASY_APPLY None
     (run_ops [CreateApplication 3 1 PENDING None None None,
               CreateApplication 4 2 PENDING None None None] empty_store)
   = (None, run_ops [CreateApplication 3 1 PENDING None None None,
                     CreateApplication 4 2 PENDING None None None] empty_store)
   \<and> map_option (\<lambda>a. (Application_id a, job_id a, status a, applied_at a))
       (fst (update_application_status 9 2 EASY_APPLY None
              (run_ops [CreateApplication 3 1 PENDING None None None,
                        CreateApplication 4 2 PENDING None None None] empty_store)))
     = Some (2, 2, EASY_APPLY, Some 9)
   \<and> map (\<lambda>a. (Application_id a, job_id a, status a, applied_at a))
       (applications
          (snd (update_application_status 9 2 EASY_APPLY None
                  (run_ops [CreateApplication 3 1 PENDING None None None,
                            CreateApplication 4 2 PENDING None None None] empty_store))))
     = [(1, 1, PENDING, None), (2, 2, EASY_APPLY, Some 9)]"
proof -
  have s: "map (\<lambda>a. (Application_id a, job_id a, status a, applied_at a))
             (applications (run_ops [CreateApplication 3 1 PENDING None None None,
                                     CreateApplication 4 2 PENDING None None None] empty_store))
           = [(1, 1, PENDING, None), (2, 2, PENDING, None)]"
    by (simp add: run_ops_def create_application_def empty_store_def next_id_def Let_def
        success_terminal_def)
  have ids: "Application_id ` set (applications
               (run_ops [CreateApplication 3 1 PENDING None None None,
                         CreateApplication 4 2 PENDING None None None] empty_store)) = {1, 2}"
    by (simp add: run_ops_def create_application_def empty_store_def next_id_def Let_def
        numeral_2_eq_2)
  have h1: "3 \<notin> Application_id ` set (applications
               (run_ops [CreateApplication 3 1 PENDING None None None,
                         CreateApplication 4 2 PENDING None None None] empty_store))"
    unfolding ids by simp
  have h2: "2 \<in> Application_id ` set (applications
               (run_ops [CreateApplication 3 1 PENDING None None None,
                         CreateApplication 4 2 PENDING None None None] empty_store))
            \<and> success_terminal EASY_APPLY"
    unfolding ids by (simp add: success_terminal_def)
  have r: "map (\<lambda>a. (Application_id a, job_id a, status a, applied_at a))
       (applications
          (snd (update_application_status 9 2 EASY_APPLY None
                  (run_ops [CreateApplication 3 1 PENDING None None None,
                            CreateApplication 4 2 PENDING None None None] empty_store))))
     = [(1, 1, PENDING, None), (2, 2, EASY_APPLY, Some 9)]"
    by (simp add: run_ops_def create_application_def update_application_status_def set_status_def
        empty_store_def next_id_def Let_def success_terminal_def truthy_def)
  have f: "map_option (\<lambda>a. (Application_id a, job_id a, status a, applied_at a))
       (fst (update_application_status 9 2 EASY_APPLY None
              (run_ops [CreateApplication 3 1 PENDING None None None,
                        CreateApplication 4 2 PENDING None None None] empty_store)))
     = Some (2, 2, EASY_APPLY, Some 9)"
    by (simp add: run_ops_def create_application_def update_application_status_def set_status_def
        empty_store_def next_id_def Let_def success_terminal_def truthy_def)
  show ?thesis
    using h1 h2 r f
      update_application_status_result
        [of 3 "run_ops [CreateApplication 3 1 PENDING None None None,
                        CreateApplication 4 2 PENDING None None None] empty_store"
            9 EASY_APPLY None]
      update_application_status_result
        [of 2 "run_ops [CreateApplication 3 1 PENDING None None None,
                        CreateApplication 4 2 PENDING None None None] empty_store"
            9 EASY_APPLY None]
    by blast
qed

theorem update_application_status_unknown_id_counterexample:
  "update_application_status 5 1 APPLIED None empty_store = (None, empty_store)"
  by (simp add: update_application_status_def empty_store_def)

text \<open>
  Claim C9, as the code has it. \<open>update_application_status\<close> never clears \<open>applied_at\<close>.
  The call keeps the rows of the table in place; a row whose \<open>applied_at\<close> is set has it
  set afterwards; the field is left as it was in every row unless the new status is a
  success terminal and the row has the id of the call. In that case it is written, also
  when it was set before: it is then the time of the call.
\<close>

theorem update_never_clears_applied_at:
  "length (applications (snd (update_application_status now aid st em s)))
     = length (applications s)
   \<and> (\<forall>i < length (applications s).
        (applied_at (applications s ! i) \<noteq> None \<longrightarrow>
           applied_at (applications (snd (update_application_status now aid st em s)) ! i) \<noteq> None)
        \<and> (\<not> success_terminal st \<or> Application_id (applications s ! i) \<noteq> aid \<longrightarrow>
             applied_at (applications (snd (update_application_status now aid st em s)) ! i)
               = applied_at (applications s ! i))
        \<and> (success_terminal st \<and> Application_id (applications s ! i) = aid \<longrightarrow>
             applied_at (applications (snd (update_application_status now aid st em s)) ! i)
               = Some now))"
  by (auto simp: applications_update set_status_simps)

theorem update_never_clears_applied_at_witness:
  "0 < length (applications (snd (create_application 1 1 EASY_APPLY None None None empty_store)))
   \<and> applied_at (applications (snd (create_application 1 1 EASY_APPLY None None None empty_store)) ! 0)
       = Some 1
   \<and> \<not> success_terminal FAILED
   \<and> applied_at
       (applications
          (snd (update_application_status 2 1 FAILED None
                  (snd (create_application 1 1 EASY_APPLY None None None empty_store)))) ! 0)
     = Some 1
   \<and> success_terminal APPLIED
   \<and> applied_at
       (applications
          (snd (update_application_status 2 1 APPLIED None
                  (snd (create_application 1 1 EASY_APPLY None None None empty_store)))) ! 0)
     = Some 2
   \<and> applied_at
       (applications
          (snd (update_application_status 2 7 APPLIED None
                  (snd (create_application 1 1 EASY_APPLY None None None empty_store)))) ! 0)
     = Some 1"
proof -
  have h: "0 < length (applications (snd (create_application 1 1 EASY_APPLY None None None empty_store)))"
    by (simp add: create_application_def empty_store_def Let_def)
  have a: "applied_at (applications (snd (create_application 1 1 EASY_APPLY None None None empty_store)) ! 0)
             = Some 1"
    by (simp add: create_application_def empty_store_def success_terminal_def Let_def)
  have i: "Application_id
             (applications (snd (create_application 1 1 EASY_APPLY None None None empty_store)) ! 0)
           = 1"
    by (simp add: create_application_def empty_store_def next_id_def Let_def)
  have f: "\<not> success_terminal FAILED" "success_terminal APPLIED"
    by (simp_all add: success_terminal_def)
  show ?thesis
    using h a i f
      update_never_clears_applied_at
        [of 2 1 FAILED None "snd (create_application 1 1 EASY_APPLY None None None empty_store)"]
      update_never_clears_applied_at
        [of 2 1 APPLIED None "snd (create_application 1 1 EASY_APPLY None None None empty_store)"]
      update_never_clears_applied_at
        [of 2 7 APPLIED None "snd (create_application 1 1 EASY_APPLY None None None empty_store)"]
    by simp
qed

theorem update_overwrites_applied_at_counterexample:
  "applied_at (applications (snd (create_application 1 1 EASY_APPLY None None None empty_store)) ! 0)
     = Some 1
   \<and> applied_at
       (applications
          (snd (update_application_status 2 1 APPLIED None
                  (snd (create_application 1 1 EASY_APPLY None None None empty_store)))) ! 0)
     = Some 2"
  by (simp add: create_application_def update_application_status_def set_status_def
        empty_store_def next_id_def success_terminal_def truthy_def Let_def)

subsection \<open>The status and the time of submission\<close>

lemma applications_insert_job:
  "insert_job now jd s = Inr (j, s') \<Longrightarrow> applications s' = applications s"
  by (auto simp: insert_job_def Let_def split: option.splits if_splits)

lemma applications_add_job:
  "add_job now jd s = Inr (r, s') \<Longrightarrow> applications s' = applications s"
  by (auto simp: add_job_def split: if_splits sum.splits dest: applications_insert_job)

lemma applications_add_jobs_batch_loop:
  "add_jobs_batch_loop now i jds added s = Inr (r, s') \<Longrightarrow> applications s' = applications s"
proof (induction jds arbitrary: i added s)
  case Nil
  then show ?case by simp
next
  case (Cons jd jds)
  show ?case
  proof (cases "job_exists s (get_linkedin_job_id jd)")
    case True
    with Cons show ?thesis by simp
  next
    case False
    with Cons.prems obtain j s1 where
      ins: "insert_job (now i) jd s = Inr (j, s1)" and
      rest: "add_jobs_batch_loop now (Suc i) jds (added @ [j]) s1 = Inr (r, s')"
      by (auto split: sum.splits)
    from Cons.IH [OF rest] applications_insert_job [OF ins] show ?thesis by simp
  qed
qed

lemma applications_apply_job_op:
  "applications (apply_op (AddJob now jd) s) = applications s"
  "applications (apply_op (AddJobsBatch nowf jds) s) = applications s"
  by (auto simp: add_jobs_batch_def split: sum.splits
      dest: applications_add_job applications_add_jobs_batch_loop)

lemma applications_create:
  "applications (snd (create_application now jid st cl ru nt s)) =
     applications s @ [fst (create_application now jid st cl ru nt s)]"
  by (simp add: create_application_def Let_def)

lemma created_fields:
  "status (fst (create_application now jid st cl ru nt s)) = st"
  "applied_at (fst (create_application now jid st cl ru nt s)) =
     (if success_terminal st then Some now else None)"
  "job_id (fst (create_application now jid st cl ru nt s)) = jid"
  "Application_id (fst (create_application now jid st cl ru nt s)) =
     next_id (map Application_id (applications s))"
  by (simp_all add: create_application_def Let_def)

lemma submitted_if_success_apply_op:
  assumes "\<forall>a \<in> set (applications s). success_terminal (status a) \<longrightarrow> applied_at a \<noteq> None"
  shows "\<forall>a \<in> set (applications (apply_op op s)).
           success_terminal (status a) \<longrightarrow> applied_at a \<noteq> None"
proof (cases op)
  case (AddJob now jd)
  with assms show ?thesis
    by (simp add: applications_apply_job_op del: apply_op.simps)
next
  case (AddJobsBatch nowf jds)
  with assms show ?thesis
    by (simp add: applications_apply_job_op del: apply_op.simps)
next
  case (CreateApplication now jid st cl ru nt)
  with assms show ?thesis
    by (auto simp: applications_create created_fields)
next
  case (UpdateApplicationStatus now aid st em)
  with assms show ?thesis
    by (auto simp: applications_update set_status_simps split: if_splits)
qed

lemma submitted_iff_success_apply_op:
  assumes "\<forall>a \<in> set (applications s). (applied_at a \<noteq> None) = success_terminal (status a)"
    and "\<not> leaves_success op s"
  shows "\<forall>a \<in> set (applications (apply_op op s)).
           (applied_at a \<noteq> None) = success_terminal (status a)"
proof (cases op)
  case (AddJob now jd)
  with assms show ?thesis
    by (simp add: applications_apply_job_op del: apply_op.simps)
next
  case (AddJobsBatch nowf jds)
  with assms show ?thesis
    by (simp add: applications_apply_job_op del: apply_op.simps)
next
  case (CreateApplication now jid st cl ru nt)
  with assms show ?thesis
    by (auto simp: applications_create created_fields)
next
  case (UpdateApplicationStatus now aid st em)
  with assms show ?thesis
    by (auto simp: applications_update set_status_simps list_ex_iff split: if_splits)
qed

lemma submitted_if_success_run_ops:
  "\<forall>a \<in> set (applications s). success_terminal (status a) \<longrightarrow> applied_at a \<noteq> None \<Longrightarrow>
   \<forall>a \<in> set (applications (run_ops ops s)). success_terminal (status a) \<longrightarrow> applied_at a \<noteq> None"
  unfolding run_ops_def
proof (induction ops arbitrary: s)
  case Nil
  then show ?case by simp
next
  case (Cons op ops)
  from Cons.IH [OF submitted_if_success_apply_op [OF Cons.prems, of op]] show ?case
    by simp
qed

lemma submitted_iff_success_run_ops:
  "\<forall>a \<in> set (applications s). (applied_at a \<noteq> None) = success_terminal (status a) \<Longrightarrow>
   never_leaves_success ops s \<Longrightarrow>
   \<forall>a \<in> set (applications (run_ops ops s)). (applied_at a \<noteq> None) = success_terminal (status a)"
  unfolding run_ops_def
proof (induction ops arbitrary: s)
  case Nil
  then show ?case by simp
next
  case (Cons op ops)
  from Cons.prems(2) have n: "\<not> leaves_success op s" "never_leaves_success ops (apply_op op s)"
    by simp_all
  from Cons.IH [OF submitted_iff_success_apply_op [OF Cons.prems(1) n(1)] n(2)] show ?case
    by simp
qed

text \<open>
  Claim C3, as the code has it. After any sequence of repository calls on the empty
  store, every application whose status is a success terminal has \<open>applied_at\<close> set.
  The converse holds as long as no call of the sequence gives a status that is not a
  success terminal to a row whose status is one: \<open>update_application_status\<close> writes
  \<open>applied_at\<close> on a success terminal and never clears it.
\<close>

theorem status_invariant:
  "(\<forall>a \<in> set (applications (run_ops ops empty_store)).
      success_terminal (status a) \<longrightarrow> applied_at a \<noteq> None)
   \<and> (never_leaves_success ops empty_store \<longrightarrow>
        (\<forall>a \<in> set (applications (run_ops ops empty_store)).
           (applied_at a \<noteq> None) = success_terminal (status a)))"
proof -
  have "\<forall>a \<in> set (applications empty_store). success_terminal (status a) \<longrightarrow> applied_at a \<noteq> None"
    and "\<forall>a \<in> set (applications empty_store). (applied_at a \<noteq> None) = success_terminal (status a)"
    by (simp_all add: empty_store_def)
  then show ?thesis
    using submitted_if_success_run_ops [of empty_store ops]
      submitted_iff_success_run_ops [of empty_store ops]
    by blast
qed

theorem status_invariant_witness:
  "never_leaves_success
     [CreateApplication 1 1 PENDING None None None, UpdateApplicationStatus 2 1 EASY_APPLY None,
      CreateApplication 3 1 PENDING None None None, UpdateApplicationStatus 4 2 FAILED (Some ''e'')]
     empty_store
   \<and> map (\<lambda>a. (status a, applied_at a, (applied_at a \<noteq> None) = success_terminal (status a)))
       (applications
          (run_ops
             [CreateApplication 1 1 PENDING None None None, UpdateApplicationStatus 2 1 EASY_APPLY None,
              CreateApplication 3 1 PENDING None None None, UpdateApplicationStatus 4 2 FAILED (Some ''e'')]
             empty_store))
     = [(EASY_APPLY, Some 2, True), (FAILED, None, True)]"
proof -
  have h: "never_leaves_success
     [CreateApplication 1 1 PENDING None None None, UpdateApplicationStatus 2 1 EASY_APPLY None,
      CreateApplication 3 1 PENDING None None None, UpdateApplicationStatus 4 2 FAILED (Some ''e'')]
     empty_store"
    by (simp add: create_application_def update_application_status_def set_status_def
        empty_store_def next_id_def success_terminal_def truthy_def Let_def)
  have m: "map (\<lambda>a. (status a, applied_at a)) (applications
        (run_ops
           [CreateApplication 1 1 PENDING None None None, UpdateApplicationStatus 2 1 EASY_APPLY None,
            CreateApplication 3 1 PENDING None None None, UpdateApplicationStatus 4 2 FAILED (Some ''e'')]
           empty_store)) = [(EASY_APPLY, Some 2), (FAILED, None)]"
    by (simp add: run_ops_def create_application_def update_application_status_def set_status_def
        empty_store_def next_id_def success_terminal_def truthy_def Let_def)
  show ?thesis
    using h m
      status_invariant
        [of "[CreateApplication 1 1 PENDING None None None, UpdateApplicationStatus 2 1 EASY_APPLY None,
              CreateApplication 3 1 PENDING None None None, UpdateApplicationStatus 4 2 FAILED (Some ''e'')]"]
    by (auto simp: map_eq_Cons_conv)
qed

theorem status_invariant_counterexample:
  "status (applications
             (run_ops [CreateApplication 1 1 EASY_APPLY None None None,
                       UpdateApplicationStatus 2 1 FAILED None] empty_store) ! 0) = FAILED
   \<and> applied_at (applications
             (run_ops [CreateApplication 1 1 EASY_APPLY None None None,
                       UpdateApplicationStatus 2 1 FAILED None] empty_store) ! 0) = Some 1"
  by (simp add: run_ops_def create_application_def update_application_status_def set_status_def
        empty_store_def next_id_def success_terminal_def truthy_def Let_def)


section \<open>Properties of the resume selector\<close>

lemma no_positive_score:
  "list_ex (\<lambda>(profile_name, s). 0 < score s)
     (map (\<lambda>(profile_name, profile_data). (profile_name, score_profile search_text profile_data)) ps)
   = (\<exists>(n, p) \<in> set ps. 0 < score (score_profile search_text p))"
  by (induction ps) auto

text \<open>
  Claim C7. With at least one profile loaded and no profile scoring above zero on the
  title, description and company given, \<open>select_resume\<close> returns the path of the first
  profile in insertion order, and not \<open>None\<close>. \<open>select_resume\<close> is a function of the
  selector and the three texts, so the same inputs give the same result.
\<close>

theorem select_resume_zero_score_default:
  assumes "resume_profiles sel \<noteq> []"
    and "\<forall>(n, p) \<in> set (resume_profiles sel).
           \<not> 0 < score (score_profile (search_text_of job_title job_description company_name) p)"
  shows "select_resume sel job_title job_description company_name
           = Some (resume_file_path sel (profile_file (snd (hd (resume_profiles sel)))))"
proof (cases "resume_profiles sel")
  case Nil
  with assms(1) show ?thesis by simp
next
  case (Cons np rest)
  obtain n p where np: "np = (n, p)" by (cases np)
  show ?thesis
  proof (cases rest)
    case Nil
    with Cons np show ?thesis by (simp add: select_resume_def)
  next
    case (Cons np' rest')
    from assms(2) have
      "\<not> list_ex (\<lambda>(profile_name, s). 0 < score s)
          (map (\<lambda>(profile_name, profile_data).
                  (profile_name,
                   score_profile (search_text_of job_title job_description company_name) profile_data))
             (resume_profiles sel))"
      unfolding no_positive_score by blast
    with \<open>resume_profiles sel = np # rest\<close> np Cons show ?thesis
      by (simp add: select_resume_def Let_def)
  qed
qed

theorem select_resume_zero_score_default_witness:
  "select_resume
     \<lparr>resume_file_path = (\<lambda>f. ''resumes/'' @ f), resume_profiles = load_resume_profiles (\<lambda>f. True)\<rparr>
     ''Nurse'' None (Some ''Mayo'')
   = Some ''resumes/Backend.pdf''"
proof -
  have l: "load_resume_profiles (\<lambda>f. True) = profiles"
    by code_simp
  have h1: "resume_profiles
              \<lparr>resume_file_path = (\<lambda>f. ''resumes/'' @ f),
               resume_profiles = load_resume_profiles (\<lambda>f. True)\<rparr> \<noteq> []"
    by (simp add: l profiles_def)
  have h2: "\<forall>(n, p) \<in> set (resume_profiles
              \<lparr>resume_file_path = (\<lambda>f. ''resumes/'' @ f),
               resume_profiles = load_resume_profiles (\<lambda>f. True)\<rparr>).
              \<not> 0 < score (score_profile (search_text_of ''Nurse'' None (Some ''Mayo'')) p)"
    by code_simp
  show ?thesis
    using select_resume_zero_score_default [OF h1 h2]
    by (simp add: l profiles_def)
qed

text \<open>
  Claim C8. When exactly one profile is loaded, \<open>select_resume\<close> returns the path of
  that profile for every title, description and company, whatever the keywords and
  the weight of the profile are: nothing is scored.
\<close>

theorem select_resume_single_profile:
  assumes "resume_profiles sel = [(profile_name, profile_data)]"
  shows "select_resume sel job_title job_description company_name
           = Some (resume_file_path sel (profile_file profile_data))"
  using assms by (simp add: select_resume_def)

theorem select_resume_single_profile_witness:
  "select_resume
     \<lparr>resume_file_path = (\<lambda>f. ''resumes/'' @ f),
      resume_profiles = load_resume_profiles (\<lambda>f. f = ''embedded.pdf'')\<rparr>
     [] None None
   = Some ''resumes/embedded.pdf''"
proof -
  have h: "resume_profiles
             \<lparr>resume_file_path = (\<lambda>f. ''resumes/'' @ f),
              resume_profiles = load_resume_profiles (\<lambda>f. f = ''embedded.pdf'')\<rparr>
           = [(''embedded'', snd (profiles ! 1))]"
    by code_simp
  show ?thesis
    using select_resume_single_profile [OF h, of "[]" None None]
    by (simp add: profiles_def)
qed


section \<open>Properties of the job table\<close>

subsection \<open>The jobs not yet applied to\<close>

lemma take_sorted_covers:
  assumes "sorted (map f xs)" and "x \<in> set xs"
  shows "x \<in> set (take n xs)
         \<or> (length (take n xs) = n \<and> (\<forall>k \<in> set (take n xs). f k \<le> f x))"
proof -
  from assms(2) obtain i where i: "i < length xs" "xs ! i = x"
    by (auto simp: in_set_conv_nth)
  show ?thesis
  proof (cases "i < n")
    case True
    with i have "take n xs ! i = x" "i < length (take n xs)" by simp_all
    then have "x \<in> set (take n xs)" by (metis nth_mem)
    then show ?thesis ..
  next
    case False
    with i have len: "length (take n xs) = n" by simp
    have "f k \<le> f x" if "k \<in> set (take n xs)" for k
    proof -
      from that obtain m where m: "m < length (take n xs)" "take n xs ! m = k"
        by (auto simp: in_set_conv_nth)
      with len have "m < n" "xs ! m = k" by simp_all
      with False i have "m \<le> i" "i < length (map f xs)" by simp_all
      with assms(1) have "map f xs ! m \<le> map f xs ! i"
        by (simp add: sorted_iff_nth_mono)
      with i \<open>m \<le> i\<close> \<open>xs ! m = k\<close> show ?thesis by simp
    qed
    with len show ?thesis by blast
  qed
qed

lemma length_filter_filter_le:
  "length (filter P (filter Q xs)) \<le> length (filter P xs)"
  by (induction xs) auto

lemma applied_job_ids_iff:
  "(Job_id j \<notin> set (applied_job_ids s)) =
     (\<forall>a \<in> set (applications s). job_id a = Job_id j \<longrightarrow> status a \<notin> {APPLIED, EASY_APPLY, SKIPPED})"
  by (auto simp: applied_job_ids_def image_iff)

lemma unapplied_filter:
  "filter (\<lambda>j. is_easy_apply j = True \<and> Job_id j \<notin> set (applied_job_ids s)) (jobs s)
   = filter (\<lambda>j. is_easy_apply j
                 \<and> (\<forall>a \<in> set (applications s).
                       job_id a = Job_id j \<longrightarrow> status a \<notin> {APPLIED, EASY_APPLY, SKIPPED}))
       (jobs s)"
  by (rule filter_cong) (simp_all add: applied_job_ids_iff)

text \<open>
  Claim C4. Every job \<open>get_unapplied_easy_apply_jobs\<close> returns is a stored easy-apply job
  none of whose applications has the status applied, easy_apply or skipped. The result
  is ordered by \<open>scraped_at\<close>, most recent first; it holds no job more often than the
  table does; it has at most \<open>limit\<close> elements, exactly the smaller of \<open>limit\<close> and the
  number of such jobs. An easy-apply job whose applications are all pending or failed
  is in the result, unless the limit has cut it off: then the result has \<open>limit\<close>
  elements and each of them was scraped no earlier than the job.
\<close>

theorem unapplied_easy_apply_jobs:
  "(\<forall>j \<in> set (get_unapplied_easy_apply_jobs limit s).
      j \<in> set (jobs s) \<and> is_easy_apply j
      \<and> (\<forall>a \<in> set (applications s).
            job_id a = Job_id j \<longrightarrow> status a \<notin> {APPLIED, EASY_APPLY, SKIPPED}))
   \<and> sorted_wrt (\<lambda>j k. scraped_at k \<le> scraped_at j) (get_unapplied_easy_apply_jobs limit s)
   \<and> length (get_unapplied_easy_apply_jobs limit s) \<le> limit
   \<and> length (get_unapplied_easy_apply_jobs limit s)
       = min limit
           (length (filter (\<lambda>j. is_easy_apply j
                                \<and> (\<forall>a \<in> set (applications s).
                                      job_id a = Job_id j \<longrightarrow>
                                      status a \<notin> {APPLIED, EASY_APPLY, SKIPPED}))
                      (jobs s)))
   \<and> (\<forall>j. count_list (get_unapplied_easy_apply_jobs limit s) j \<le> count_list (jobs s) j)
   \<and> (\<forall>j \<in> set (jobs s).
        is_easy_apply j
        \<and> (\<forall>a \<in> set (applications s). job_id a = Job_id j \<longrightarrow> status a \<in> {PENDING, FAILED})
        \<longrightarrow> j \<in> set (get_unapplied_easy_apply_jobs limit s)
            \<or> (length (get_unapplied_easy_apply_jobs limit s) = limit
                \<and> (\<forall>k \<in> set (get_unapplied_easy_apply_jobs limit s).
                      scraped_at j \<le> scraped_at k)))"
proof -
  define el where "el = filter (\<lambda>j. is_easy_apply j
                 \<and> (\<forall>a \<in> set (applications s).
                       job_id a = Job_id j \<longrightarrow> status a \<notin> {APPLIED, EASY_APPLY, SKIPPED}))
       (jobs s)"
  define srt where "srt = sort_key (\<lambda>j. - scraped_at j) el"
  have r: "get_unapplied_easy_apply_jobs limit s = take limit srt"
    unfolding get_unapplied_easy_apply_jobs_def unapplied_filter srt_def el_def ..
  have set_srt: "set srt = set el" by (simp add: srt_def)
  have sorted_srt: "sorted (map (\<lambda>j. - scraped_at j) srt)"
    by (simp add: srt_def)
  have 1: "\<forall>j \<in> set (take limit srt).
      j \<in> set (jobs s) \<and> is_easy_apply j
      \<and> (\<forall>a \<in> set (applications s).
            job_id a = Job_id j \<longrightarrow> status a \<notin> {APPLIED, EASY_APPLY, SKIPPED})"
  proof
    fix j assume "j \<in> set (take limit srt)"
    then have "j \<in> set el" using set_srt by (auto dest: in_set_takeD)
    then show "j \<in> set (jobs s) \<and> is_easy_apply j
      \<and> (\<forall>a \<in> set (applications s).
            job_id a = Job_id j \<longrightarrow> status a \<notin> {APPLIED, EASY_APPLY, SKIPPED})"
      by (simp add: el_def)
  qed
  from sorted_srt have "sorted_wrt (\<lambda>j k. - scraped_at j \<le> - scraped_at k) srt"
    by (simp add: sorted_map)
  then have "sorted_wrt (\<lambda>j k. scraped_at k \<le> scraped_at j) srt" by simp
  then have 2: "sorted_wrt (\<lambda>j k. scraped_at k \<le> scraped_at j) (take limit srt)"
    by (rule sorted_wrt_take)
  have 3: "length (take limit srt) \<le> limit" by simp
  have 4: "length (take limit srt) = min limit (length el)"
    by (simp add: srt_def min.commute)
  have 5: "\<forall>j. count_list (take limit srt) j \<le> count_list (jobs s) j"
  proof
    fix j
    have "count_list (take limit srt) j \<le> count_list (take limit srt @ drop limit srt) j"
      unfolding count_list_append by simp
    also have "\<dots> = length (filter ((=) j) srt)"
      by (simp add: count_list_eq_length_filter)
    also have "\<dots> = length (filter ((=) j) el)"
      by (simp add: srt_def filter_sort)
    also have "\<dots> \<le> length (filter ((=) j) (jobs s))"
      unfolding el_def by (rule length_filter_filter_le)
    finally show "count_list (take limit srt) j \<le> count_list (jobs s) j"
      by (simp add: count_list_eq_length_filter)
  qed
  have 6: "\<forall>j \<in> set (jobs s).
        is_easy_apply j
        \<and> (\<forall>a \<in> set (applications s). job_id a = Job_id j \<longrightarrow> status a \<in> {PENDING, FAILED})
        \<longrightarrow> j \<in> set (take limit srt)
            \<or> (length (take limit srt) = limit
                \<and> (\<forall>k \<in> set (take limit srt). scraped_at j \<le> scraped_at k))"
  proof (intro ballI impI)
    fix j
    assume j: "j \<in> set (jobs s)"
      and e: "is_easy_apply j
        \<and> (\<forall>a \<in> set (applications s). job_id a = Job_id j \<longrightarrow> status a \<in> {PENDING, FAILED})"
    then have "j \<in> set el" by (auto simp: el_def)
    then have "j \<in> set srt" by (simp add: set_srt)
    from take_sorted_covers [OF sorted_srt this, of limit]
    show "j \<in> set (take limit srt)
            \<or> (length (take limit srt) = limit
                \<and> (\<forall>k \<in> set (take limit srt). scraped_at j \<le> scraped_at k))"
      by simp
  qed
  from 1 2 3 4 5 6 show ?thesis
    unfolding r el_def by blast
qed

theorem unapplied_easy_apply_jobs_witness:
  "map Job_id
     (get_unapplied_easy_apply_jobs 5
        (run_ops
           [AddJob 10 (job_dict ''1'' ''Job 1'' ''Company 1'' (Some True)),
            AddJob 20 (job_dict ''2'' ''Job 2'' ''Company 2'' (Some True)),
            AddJob 30 (job_dict ''3'' ''Job 3'' ''Company 3'' (Some True)),
            AddJob 40 (job_dict ''4'' ''Job 4'' ''Company 4'' None),
            CreateApplication 50 1 FAILED None None None,
            CreateApplication 51 2 EASY_APPLY None None None]
           empty_store)) = [3, 1]
   \<and> map Job_id
     (get_unapplied_easy_apply_jobs 1
        (run_ops
           [AddJob 10 (job_dict ''1'' ''Job 1'' ''Company 1'' (Some True)),
            AddJob 20 (job_dict ''2'' ''Job 2'' ''Company 2'' (Some True)),
            AddJob 30 (job_dict ''3'' ''Job 3'' ''Company 3'' (Some True)),
            AddJob 40 (job_dict ''4'' ''Job 4'' ''Company 4'' None),
            CreateApplication 50 1 FAILED None None None,
            CreateApplication 51 2 EASY_APPLY None None None]
           empty_store)) = [3]"
proof -
  have j: "map (\<lambda>j. (Job_id j, is_easy_apply j, scraped_at j))
             (jobs (run_ops
           [AddJob 10 (job_dict ''1'' ''Job 1'' ''Company 1'' (Some True)),
            AddJob 20 (job_dict ''2'' ''Job 2'' ''Company 2'' (Some True)),
            AddJob 30 (job_dict ''3'' ''Job 3'' ''Company 3'' (Some True)),
            AddJob 40 (job_dict ''4'' ''Job 4'' ''Company 4'' None),
            CreateApplication 50 1 FAILED None None None,
            CreateApplication 51 2 EASY_APPLY None None None]
           empty_store))
           = [(1, True, 10), (2, True, 20), (3, True, 30), (4, False, 40)]"
    by code_simp
  have h: "jobs (run_ops
           [AddJob 10 (job_dict ''1'' ''Job 1'' ''Company 1'' (Some True)),
            AddJob 20 (job_dict ''2'' ''Job 2'' ''Company 2'' (Some True)),
            AddJob 30 (job_dict ''3'' ''Job 3'' ''Company 3'' (Some True)),
            AddJob 40 (job_dict ''4'' ''Job 4'' ''Company 4'' None),
            CreateApplication 50 1 FAILED None None None,
            CreateApplication 51 2 EASY_APPLY None None None]
           empty_store) ! 0
         \<in> set (jobs (run_ops
           [AddJob 10 (job_dict ''1'' ''Job 1'' ''Company 1'' (Some True)),
            AddJob 20 (job_dict ''2'' ''Job 2'' ''Company 2'' (Some True)),
            AddJob 30 (job_dict ''3'' ''Job 3'' ''Company 3'' (Some True)),
            AddJob 40 (job_dict ''4'' ''Job 4'' ''Company 4'' None),
            CreateApplication 50 1 FAILED None None None,
            CreateApplication 51 2 EASY_APPLY None None None]
           empty_store))
         \<and> is_easy_apply (jobs (run_ops
           [AddJob 10 (job_dict ''1'' ''Job 1'' ''Company 1'' (Some True)),
            AddJob 20 (job_dict ''2'' ''Job 2'' ''Company 2'' (Some True)),
            AddJob 30 (job_dict ''3'' ''Job 3'' ''Company 3'' (Some True)),
            AddJob 40 (job_dict ''4'' ''Job 4'' ''Company 4'' None),
            CreateApplication 50 1 FAILED None None None,
            CreateApplication 51 2 EASY_APPLY None None None]
           empty_store) ! 0)
         \<and> (\<forall>a \<in> set (applications (run_ops
           [AddJob 10 (job_dict ''1'' ''Job 1'' ''Company 1'' (Some True)),
            AddJob 20 (job_dict ''2'' ''Job 2'' ''Company 2'' (Some True)),
            AddJob 30 (job_dict ''3'' ''Job 3'' ''Company 3'' (Some True)),
            AddJob 40 (job_dict ''4'' ''Job 4'' ''Company 4'' None),
            CreateApplication 50 1 FAILED None None None,
            CreateApplication 51 2 EASY_APPLY None None None]
           empty_store)).
               job_id a = Job_id (jobs (run_ops
           [AddJob 10 (job_dict ''1'' ''Job 1'' ''Company 1'' (Some True)),
            AddJob 20 (job_dict ''2'' ''Job 2'' ''Company 2'' (Some True)),
            AddJob 30 (job_dict ''3'' ''Job 3'' ''Company 3'' (Some True)),
            AddJob 40 (job_dict ''4'' ''Job 4'' ''Company 4'' None),
            CreateApplication 50 1 FAILED None None None,
            CreateApplication 51 2 EASY_APPLY None None None]
           empty_store) ! 0) \<longrightarrow> status a \<in> {PENDING, FAILED})"
    by code_simp
  have r5: "map Job_id
     (get_unapplied_easy_apply_jobs 5
        (run_ops
           [AddJob 10 (job_dict ''1'' ''Job 1'' ''Company 1'' (Some True)),
            AddJob 20 (job_dict ''2'' ''Job 2'' ''Company 2'' (Some True)),
            AddJob 30 (job_dict ''3'' ''Job 3'' ''Company 3'' (Some True)),
            AddJob 40 (job_dict ''4'' ''Job 4'' ''Company 4'' None),
            CreateApplication 50 1 FAILED None None None,
            CreateApplication 51 2 EASY_APPLY None None None]
           empty_store)) = [3, 1]"
    by code_simp
  have r1: "map Job_id
     (get_unapplied_easy_apply_jobs 1
        (run_ops
           [AddJob 10 (job_dict ''1'' ''Job 1'' ''Company 1'' (Some True)),
            AddJob 20 (job_dict ''2'' ''Job 2'' ''Company 2'' (Some True)),
            AddJob 30 (job_dict ''3'' ''Job 3'' ''Company 3'' (Some True)),
            AddJob 40 (job_dict ''4'' ''Job 4'' ''Company 4'' None),
            CreateApplication 50 1 FAILED None None None,
            CreateApplication 51 2 EASY_APPLY None None None]
           empty_store)) = [3]"
    by code_simp
  show ?thesis
    using j h r5 r1
      unapplied_easy_apply_jobs
        [of 5 "run_ops
           [AddJob 10 (job_dict ''1'' ''Job 1'' ''Company 1'' (Some True)),
            AddJob 20 (job_dict ''2'' ''Job 2'' ''Company 2'' (Some True)),
            AddJob 30 (job_dict ''3'' ''Job 3'' ''Company 3'' (Some True)),
            AddJob 40 (job_dict ''4'' ''Job 4'' ''Company 4'' None),
            CreateApplication 50 1 FAILED None None None,
            CreateApplication 51 2 EASY_APPLY None None None]
           empty_store"]
      unapplied_easy_apply_jobs
        [of 1 "run_ops
           [AddJob 10 (job_dict ''1'' ''Job 1'' ''Company 1'' (Some True)),
            AddJob 20 (job_dict ''2'' ''Job 2'' ''Company 2'' (Some True)),
            AddJob 30 (job_dict ''3'' ''Job 3'' ''Company 3'' (Some True)),
            AddJob 40 (job_dict ''4'' ''Job 4'' ''Company 4'' None),
            CreateApplication 50 1 FAILED None None None,
            CreateApplication 51 2 EASY_APPLY None None None]
           empty_store"]
    by blast
qed

subsection \<open>Duplicate listings\<close>

lemma job_exists_iff:
  "job_exists s lid = (lid \<in> linkedin_job_id ` set (jobs s))"
  by (auto simp: job_exists_def find_None_iff)

lemma insert_job_Inr:
  assumes "insert_job now jd s = Inr (j, s')"
  shows "jobs s' = jobs s @ [j]" and "applications s' = applications s"
    and "jd_linkedin_job_id jd = Some (linkedin_job_id j)"
    and "\<not> job_exists s (linkedin_job_id j)"
    and "Job_id j = next_id (map Job_id (jobs s))"
  using assms
  by (auto simp: insert_job_def Let_def split: option.splits if_splits)

lemma count_one_if_distinct:
  "distinct (map f xs) \<Longrightarrow> x \<in> f ` set xs \<Longrightarrow> length (filter (\<lambda>j. f j = x) xs) = 1"
proof (induction xs)
  case Nil
  then show ?case by simp
next
  case (Cons a xs)
  show ?case
  proof (cases "f a = x")
    case True
    with Cons.prems have "x \<notin> f ` set xs" by auto
    then have "filter (\<lambda>j. f j = x) xs = []" by (auto simp: filter_empty_conv)
    with True show ?thesis by simp
  next
    case False
    with Cons show ?thesis by auto
  qed
qed

lemma add_jobs_batch_loop_Inr:
  assumes "add_jobs_batch_loop now i jds acc s = Inr (added, s')"
  shows "\<exists>new. added = acc @ new \<and> jobs s' = jobs s @ new \<and> applications s' = applications s
           \<and> (distinct (map linkedin_job_id (jobs s)) \<longrightarrow> distinct (map linkedin_job_id (jobs s')))"
  using assms
proof (induction jds arbitrary: i acc s)
  case Nil
  then show ?case by simp
next
  case (Cons jd jds)
  show ?case
  proof (cases "job_exists s (get_linkedin_job_id jd)")
    case True
    with Cons.prems have "add_jobs_batch_loop now (Suc i) jds acc s = Inr (added, s')" by simp
    from Cons.IH [OF this] show ?thesis .
  next
    case False
    with Cons.prems obtain j s1 where
      ins: "insert_job (now i) jd s = Inr (j, s1)" and
      rest: "add_jobs_batch_loop now (Suc i) jds (acc @ [j]) s1 = Inr (added, s')"
      by (auto split: sum.splits)
    from Cons.IH [OF rest] obtain new where new:
      "added = (acc @ [j]) @ new" "jobs s' = jobs s1 @ new" "applications s' = applications s1"
      "distinct (map linkedin_job_id (jobs s1)) \<longrightarrow> distinct (map linkedin_job_id (jobs s'))"
      by blast
    from insert_job_Inr [OF ins] have s1:
      "jobs s1 = jobs s @ [j]" "applications s1 = applications s"
      "\<not> job_exists s (linkedin_job_id j)"
      by simp_all
    from s1(1,3) have "distinct (map linkedin_job_id (jobs s)) \<Longrightarrow> distinct (map linkedin_job_id (jobs s1))"
      by (simp add: job_exists_iff)
    with new s1 have "added = acc @ (j # new) \<and> jobs s' = jobs s @ (j # new)
        \<and> applications s' = applications s
        \<and> (distinct (map linkedin_job_id (jobs s)) \<longrightarrow> distinct (map linkedin_job_id (jobs s')))"
      by simp
    then show ?thesis by blast
  qed
qed

lemma distinct_apply_op:
  assumes "distinct (map linkedin_job_id (jobs s))"
  shows "distinct (map linkedin_job_id (jobs (apply_op op s)))"
proof (cases op)
  case (AddJob now jd)
  show ?thesis
  proof (cases "add_job now jd s")
    case (Inl e)
    with AddJob assms show ?thesis by simp
  next
    case (Inr r)
    obtain res s' where r: "r = (res, s')" by (cases r)
    show ?thesis
    proof (cases "job_exists s (get_linkedin_job_id jd)")
      case True
      with Inr r have "s' = s" by (simp add: add_job_def)
      with AddJob Inr r assms show ?thesis by simp
    next
      case False
      with Inr r obtain j where ins: "insert_job now jd s = Inr (j, s')"
        by (auto simp: add_job_def split: sum.splits)
      from insert_job_Inr [OF ins] assms have "distinct (map linkedin_job_id (jobs s'))"
        by (simp add: job_exists_iff)
      with AddJob Inr r show ?thesis by simp
    qed
  qed
next
  case (AddJobsBatch nowf jds)
  show ?thesis
  proof (cases "add_jobs_batch nowf jds s")
    case (Inl e)
    with AddJobsBatch assms show ?thesis by simp
  next
    case (Inr r)
    obtain res s' where r: "r = (res, s')" by (cases r)
    with Inr have "add_jobs_batch_loop nowf 0 jds [] s = Inr (res, s')"
      by (simp add: add_jobs_batch_def)
    from add_jobs_batch_loop_Inr [OF this] assms have "distinct (map linkedin_job_id (jobs s'))"
      by blast
    with AddJobsBatch Inr r show ?thesis by simp
  qed
next
  case (CreateApplication now jid st cl ru nt)
  with assms show ?thesis by (simp add: create_application_def Let_def)
next
  case (UpdateApplicationStatus now aid st em)
  with assms show ?thesis by (simp add: jobs_update)
qed

lemma distinct_run_ops:
  "distinct (map linkedin_job_id (jobs s)) \<Longrightarrow>
   distinct (map linkedin_job_id (jobs (run_ops ops s)))"
  unfolding run_ops_def
proof (induction ops arbitrary: s)
  case Nil
  then show ?case by simp
next
  case (Cons op ops)
  from Cons.IH [OF distinct_apply_op [OF Cons.prems, of op]] show ?case by simp
qed

lemma add_jobs_batch_loop_clock:
  assumes "\<forall>k. now' (i' + k) = now (i + k)"
  shows "add_jobs_batch_loop now i jds acc s = add_jobs_batch_loop now' i' jds acc s"
  using assms
proof (induction jds arbitrary: i i' acc s)
  case Nil
  show ?case by simp
next
  case (Cons jd jds)
  from Cons.prems have "now' (i' + 0) = now (i + 0)" by blast
  then have eq: "now' i' = now i" by simp
  from Cons.prems have "\<forall>k. now' (Suc i' + k) = now (Suc i + k)"
    by (metis add_Suc add_Suc_right)
  from Cons.IH [OF this] eq show ?case
    by (simp split: sum.splits)
qed

lemma add_jobs_batch_loop_skip:
  assumes "job_exists s (get_linkedin_job_id jd)"
  shows "add_jobs_batch_loop now i (pre @ jd # post) acc s
         = add_jobs_batch_loop (\<lambda>k. if k < i + length pre then now k else now (Suc k)) i
             (pre @ post) acc s"
  using assms
proof (induction pre arbitrary: i acc s)
  case Nil
  have "add_jobs_batch_loop now (Suc i) post acc s
        = add_jobs_batch_loop (\<lambda>k. if k < i then now k else now (Suc k)) i post acc s"
    by (rule add_jobs_batch_loop_clock) simp
  with Nil show ?case by simp
next
  case (Cons p pre)
  have f: "(\<lambda>k. if k < Suc i + length pre then now k else now (Suc k))
           = (\<lambda>k. if k < i + length (p # pre) then now k else now (Suc k))"
    by simp
  show ?case
  proof (cases "job_exists s (get_linkedin_job_id p)")
    case True
    with Cons.IH [OF Cons.prems, of "Suc i" acc] show ?thesis
      unfolding f by simp
  next
    case False
    show ?thesis
    proof (cases "insert_job (now i) p s")
      case (Inl e)
      with False show ?thesis by simp
    next
      case (Inr r)
      obtain j s1 where r: "r = (j, s1)" by (cases r)
      from insert_job_Inr(1) [OF Inr [unfolded r]] Cons.prems
      have "job_exists s1 (get_linkedin_job_id jd)"
        by (simp add: job_exists_iff)
      from Cons.IH [OF this, of "Suc i" "acc @ [j]"] False Inr r show ?thesis
        unfolding f by simp
    qed
  qed
qed

text \<open>
  Claim C1. After any sequence of repository calls on the empty store no two stored
  jobs have the same \<open>linkedin_job_id\<close>. When the id of a listing is already stored,
  \<open>add_job\<close> raises nothing, returns \<open>None\<close> and leaves the store as it was, with
  exactly one job of that id; \<open>add_jobs_batch\<close> passes over the listing, so the batch
  does what the batch without it does (the clock readings of the later items apart):
  when it returns, no job of the returned list has that id, the stored jobs are the
  earlier ones followed by the returned list, and exactly one of them has that id.
\<close>

theorem duplicate_job_not_added:
  "distinct (map linkedin_job_id (jobs (run_ops ops empty_store)))
   \<and> (job_exists (run_ops ops empty_store) (get_linkedin_job_id jd) \<longrightarrow>
        add_job now jd (run_ops ops empty_store) = Inr (None, run_ops ops empty_store)
        \<and> length (filter (\<lambda>j. linkedin_job_id j = get_linkedin_job_id jd)
                    (jobs (run_ops ops empty_store))) = 1
        \<and> add_jobs_batch nowf (pre @ jd # post) (run_ops ops empty_store)
            = add_jobs_batch (\<lambda>k. if k < length pre then nowf k else nowf (Suc k)) (pre @ post)
                (run_ops ops empty_store)
        \<and> (\<forall>added s'.
              add_jobs_batch nowf (pre @ jd # post) (run_ops ops empty_store) = Inr (added, s') \<longrightarrow>
                get_linkedin_job_id jd \<notin> linkedin_job_id ` set added
                \<and> jobs s' = jobs (run_ops ops empty_store) @ added
                \<and> length (filter (\<lambda>j. linkedin_job_id j = get_linkedin_job_id jd) (jobs s')) = 1))"
proof -
  define s where "s = run_ops ops empty_store"
  have d: "distinct (map linkedin_job_id (jobs s))"
    unfolding s_def by (rule distinct_run_ops) (simp add: empty_store_def)
  have rest: "add_job now jd s = Inr (None, s)
        \<and> length (filter (\<lambda>j. linkedin_job_id j = get_linkedin_job_id jd) (jobs s)) = 1
        \<and> add_jobs_batch nowf (pre @ jd # post) s
            = add_jobs_batch (\<lambda>k. if k < length pre then nowf k else nowf (Suc k)) (pre @ post) s
        \<and> (\<forall>added s'.
              add_jobs_batch nowf (pre @ jd # post) s = Inr (added, s') \<longrightarrow>
                get_linkedin_job_id jd \<notin> linkedin_job_id ` set added
                \<and> jobs s' = jobs s @ added
                \<and> length (filter (\<lambda>j. linkedin_job_id j = get_linkedin_job_id jd) (jobs s')) = 1)"
    if e: "job_exists s (get_linkedin_job_id jd)"
  proof (intro conjI allI impI)
    from e show "add_job now jd s = Inr (None, s)" by (simp add: add_job_def)
    from e have m: "get_linkedin_job_id jd \<in> linkedin_job_id ` set (jobs s)"
      by (simp add: job_exists_iff)
    from count_one_if_distinct [OF d m]
    show "length (filter (\<lambda>j. linkedin_job_id j = get_linkedin_job_id jd) (jobs s)) = 1" .
    from add_jobs_batch_loop_skip [OF e, of nowf 0 pre post "[]"]
    show "add_jobs_batch nowf (pre @ jd # post) s
            = add_jobs_batch (\<lambda>k. if k < length pre then nowf k else nowf (Suc k)) (pre @ post) s"
      by (simp add: add_jobs_batch_def)
    fix added s'
    assume "add_jobs_batch nowf (pre @ jd # post) s = Inr (added, s')"
    then have "add_jobs_batch_loop nowf 0 (pre @ jd # post) [] s = Inr (added, s')"
      by (simp add: add_jobs_batch_def)
    from add_jobs_batch_loop_Inr [OF this] obtain new where
      new: "added = [] @ new" "jobs s' = jobs s @ new"
        "distinct (map linkedin_job_id (jobs s)) \<longrightarrow> distinct (map linkedin_job_id (jobs s'))"
      by blast
    from new(1,2) have j: "jobs s' = jobs s @ added" by simp
    from new(3) d have d': "distinct (map linkedin_job_id (jobs s'))" by blast
    from j show "jobs s' = jobs s @ added" .
    from d' j have "linkedin_job_id ` set (jobs s) \<inter> linkedin_job_id ` set added = {}"
      by simp
    with m show "get_linkedin_job_id jd \<notin> linkedin_job_id ` set added"
      by blast
    from j m have "get_linkedin_job_id jd \<in> linkedin_job_id ` set (jobs s')" by auto
    from count_one_if_distinct [OF d' this]
    show "length (filter (\<lambda>j. linkedin_job_id j = get_linkedin_job_id jd) (jobs s')) = 1" .
  qed
  from d rest show ?thesis
    unfolding s_def by blast
qed

theorem duplicate_job_not_added_witness:
  "job_exists
     (run_ops [AddJob 1 (job_dict ''12345'' ''Software Engineer'' ''Test Company'' None)] empty_store)
     (get_linkedin_job_id (job_dict ''12345'' ''Software Engineer'' ''Test Company'' None))
   \<and> add_job 2 (job_dict ''12345'' ''Software Engineer'' ''Test Company'' None)
       (run_ops [AddJob 1 (job_dict ''12345'' ''Software Engineer'' ''Test Company'' None)] empty_store)
     = Inr (None,
            run_ops [AddJob 1 (job_dict ''12345'' ''Software Engineer'' ''Test Company'' None)]
              empty_store)
   \<and> map linkedin_job_id
       (jobs (run_ops [AddJob 1 (job_dict ''12345'' ''Software Engineer'' ''Test Company'' None)]
                empty_store))
     = [''12345'']
   \<and> map_sum id (\<lambda>(added, s'). (map linkedin_job_id added, map linkedin_job_id (jobs s')))
       (add_jobs_batch (\<lambda>i. 10 + int i)
          ([job_dict ''1'' ''Job 1'' ''Company 1'' None]
           @ job_dict ''12345'' ''Software Engineer'' ''Test Company'' None
           # [job_dict ''2'' ''Job 2'' ''Company 2'' None])
          (run_ops [AddJob 1 (job_dict ''12345'' ''Software Engineer'' ''Test Company'' None)]
             empty_store))
     = Inr ([''1'', ''2''], [''12345'', ''1'', ''2''])"
proof -
  have h: "job_exists
     (run_ops [AddJob 1 (job_dict ''12345'' ''Software Engineer'' ''Test Company'' None)] empty_store)
     (get_linkedin_job_id (job_dict ''12345'' ''Software Engineer'' ''Test Company'' None))"
    by code_simp
  have m: "map linkedin_job_id
       (jobs (run_ops [AddJob 1 (job_dict ''12345'' ''Software Engineer'' ''Test Company'' None)]
                empty_store))
     = [''12345'']"
    by code_simp
  have b: "map_sum id (\<lambda>(added, s'). (map linkedin_job_id added, map linkedin_job_id (jobs s')))
       (add_jobs_batch (\<lambda>i. 10 + int i)
          ([job_dict ''1'' ''Job 1'' ''Company 1'' None]
           @ job_dict ''12345'' ''Software Engineer'' ''Test Company'' None
           # [job_dict ''2'' ''Job 2'' ''Company 2'' None])
          (run_ops [AddJob 1 (job_dict ''12345'' ''Software Engineer'' ''Test Company'' None)]
             empty_store))
     = Inr ([''1'', ''2''], [''12345'', ''1'', ''2''])"
    by code_simp
  show ?thesis
    using h m b
      duplicate_job_not_added
        [of "[AddJob 1 (job_dict ''12345'' ''Software Engineer'' ''Test Company'' None)]"
            "job_dict ''12345'' ''Software Engineer'' ''Test Company'' None" 2]
    by blast
qed


section \<open>Properties of the application engine\<close>

subsection \<open>The modal loop is bounded\<close>

lemma inert_wait: "inert pg \<Longrightarrow> \<exists>p'. wait_for_timeout pg n p = (Inr (), p')"
proof -
  assume i: "inert pg"
  then have "\<not> isl (fst (wait_for_timeout pg n p))" unfolding inert_def by blast
  then show ?thesis by (cases "wait_for_timeout pg n p"; cases "fst (wait_for_timeout pg n p)") auto
qed

lemma inert_query: "inert pg \<Longrightarrow> \<exists>r p'. query_selector pg sel p = (Inr r, p')"
proof -
  assume i: "inert pg"
  then have "\<not> isl (fst (query_selector pg sel p))" unfolding inert_def by blast
  then show ?thesis by (cases "query_selector pg sel p"; cases "fst (query_selector pg sel p)") auto
qed

lemma inert_text: "inert pg \<Longrightarrow> \<exists>t p'. inner_text pg el p = (Inr t, p')"
proof -
  assume i: "inert pg"
  then have "\<not> isl (fst (inner_text pg el p))" unfolding inert_def by blast
  then show ?thesis by (cases "inner_text pg el p"; cases "fst (inner_text pg el p)") auto
qed

lemma text_of_eq:
  "query_selector pg sel p = (r, p1) \<Longrightarrow> inner_text pg el p1 = (Inr t, p2) \<Longrightarrow>
   text_of pg sel el p = lower t"
  by (simp add: text_of_def)

lemma check_success_inert:
  assumes "inert pg"
  shows "\<exists>p'. check_success pg p = (Inr None, p')"
proof -
  let ?sel = "''[class*='post-apply'], .artdeco-modal__content h2''"
  from inert_query [OF assms] obtain r p1 where q: "query_selector pg ?sel p = (Inr r, p1)"
    by blast
  show ?thesis
  proof (cases r)
    case None
    with q show ?thesis by (simp add: check_success_def bind_io_def return_io_def)
  next
    case (Some el)
    from inert_text [OF assms] obtain t p2 where t: "inner_text pg el p1 = (Inr t, p2)"
      by blast
    from assms q Some have
      "\<not> contains (text_of pg ?sel el p) ''application sent''
       \<and> \<not> contains (text_of pg ?sel el p) ''applied''"
      unfolding inert_def by simp
    with text_of_eq [OF q t] have "\<not> contains (lower t) ''application sent''"
      "\<not> contains (lower t) ''applied''" by simp_all
    with q Some t show ?thesis by (simp add: check_success_def bind_io_def return_io_def)
  qed
qed

lemma check_submit_inert:
  assumes "inert pg"
  shows "\<exists>p'. check_submit pg ap job p = (Inr None, p')"
proof -
  let ?sel = "''button[aria-label='Submit application'], button[aria-label='Review'], ''
              @ ''.jobs-easy-apply-content footer button.artdeco-button--primary''"
  from inert_query [OF assms] obtain r p1 where q: "query_selector pg ?sel p = (Inr r, p1)"
    by blast
  show ?thesis
  proof (cases r)
    case None
    with q show ?thesis by (simp add: check_submit_def bind_io_def return_io_def)
  next
    case (Some el)
    from inert_text [OF assms] obtain t p2 where t: "inner_text pg el p1 = (Inr t, p2)"
      by blast
    from assms q Some have
      "\<forall>w \<in> set [''submit'', ''next'', ''continue'', ''review''].
          \<not> contains (text_of pg ?sel el p) w"
      unfolding inert_def by simp
    with text_of_eq [OF q t] have "\<not> contains (lower t) ''submit''"
      "\<not> contains (lower t) ''next''" "\<not> contains (lower t) ''continue''"
      "\<not> contains (lower t) ''review''" by simp_all
    with q Some t show ?thesis by (simp add: check_submit_def bind_io_def return_io_def)
  qed
qed

lemma check_next_inert:
  assumes "inert pg"
  shows "\<exists>p'. check_next pg ap job p = (Inr None, p')"
proof -
  let ?sel = "''button[aria-label='Continue to next step'], button[data-easy-apply-next-button]''"
  from assms have "fst (query_selector pg ?sel p) = Inr None"
    unfolding inert_def by blast
  then obtain p1 where "query_selector pg ?sel p = (Inr None, p1)"
    by (cases "query_selector pg ?sel p") auto
  then show ?thesis by (simp add: check_next_def bind_io_def return_io_def)
qed

lemma check_dismiss_inert:
  assumes "inert pg"
  shows "\<exists>p'. check_dismiss pg p = (Inr None, p')"
proof -
  let ?sel = "''button[aria-label='Dismiss'], .artdeco-modal__dismiss''"
  from inert_query [OF assms] obtain r p1 where q: "query_selector pg ?sel p = (Inr r, p1)"
    by blast
  show ?thesis
  proof (cases r)
    case None
    with q show ?thesis by (simp add: check_dismiss_def bind_io_def return_io_def)
  next
    case (Some btn)
    from inert_query [OF assms] obtain c p2 where
      q2: "query_selector pg ''.artdeco-modal__content'' p1 = (Inr c, p2)"
      by blast
    show ?thesis
    proof (cases c)
      case None
      with q Some q2 show ?thesis by (simp add: check_dismiss_def bind_io_def return_io_def)
    next
      case (Some el)
      from inert_text [OF assms] obtain t p3 where t: "inner_text pg el p2 = (Inr t, p3)"
        by blast
      from assms q2 Some have
        "\<not> contains (text_of pg ''.artdeco-modal__content'' el p1) ''application sent''"
        unfolding inert_def by simp
      with text_of_eq [OF q2 t] have "\<not> contains (lower t) ''application sent''" by simp
      with q \<open>r = Some btn\<close> q2 Some t show ?thesis
        by (simp add: check_dismiss_def bind_io_def return_io_def)
    qed
  qed
qed

lemma check_errors_inert:
  assumes "inert pg"
  shows "\<exists>p'. check_errors pg p = (Inr (), p')"
proof -
  let ?sel = "''.artdeco-inline-feedback--error, [class*='error']''"
  from inert_query [OF assms] obtain r p1 where q: "query_selector pg ?sel p = (Inr r, p1)"
    by blast
  show ?thesis
  proof (cases r)
    case None
    with q show ?thesis by (simp add: check_errors_def bind_io_def return_io_def)
  next
    case (Some el)
    from inert_text [OF assms] obtain t p2 where t: "inner_text pg el p1 = (Inr t, p2)"
      by blast
    with q Some show ?thesis by (simp add: check_errors_def bind_io_def return_io_def)
  qed
qed

lemma modal_step_inert:
  assumes "inert pg"
  shows "\<exists>p'. modal_step pg ap job p = (Inr Continue, p')"
proof -
  from inert_wait [OF assms] obtain p1 where 1: "wait_for_timeout pg 1500 p = (Inr (), p1)"
    by blast
  from check_success_inert [OF assms] obtain p2 where 2: "check_success pg p1 = (Inr None, p2)"
    by blast
  from check_submit_inert [OF assms] obtain p3 where
    3: "check_submit pg ap job p2 = (Inr None, p3)" by blast
  from check_next_inert [OF assms] obtain p4 where
    4: "check_next pg ap job p3 = (Inr None, p4)" by blast
  from check_dismiss_inert [OF assms] obtain p5 where 5: "check_dismiss pg p4 = (Inr None, p5)"
    by blast
  from check_errors_inert [OF assms] obtain p6 where 6: "check_errors pg p5 = (Inr (), p6)"
    by blast
  from 1 2 3 4 5 6 show ?thesis
    by (simp add: modal_step_def or_else_def bind_io_def return_io_def)
qed

lemma loop_bound:
  "step \<le> max_steps \<Longrightarrow> fst (complete_application_modal_loop pg ap job step p) \<le> max_steps"
proof (induction pg ap job step p rule: complete_application_modal_loop.induct)
  case (1 pg ap job step p)
  show ?case
  proof (cases "step < max_steps")
    case False
    with "1.prems" show ?thesis
      by (subst complete_application_modal_loop.simps) simp
  next
    case True
    obtain r p' where m: "modal_step pg ap job p = (r, p')" by (cases "modal_step pg ap job p")
    show ?thesis
    proof (cases r)
      case (Inl e)
      with True m show ?thesis
        by (subst complete_application_modal_loop.simps) simp
    next
      case (Inr x)
      show ?thesis
      proof (cases x)
        case (Return b)
        with True m Inr show ?thesis
          by (subst complete_application_modal_loop.simps) simp
      next
        case Continue
        from True have "Suc step \<le> max_steps" by simp
        from "1.IH" [OF True m [symmetric] Inr Continue this] True m Inr Continue
        show ?thesis
          by (subst complete_application_modal_loop.simps) simp
      qed
    qed
  qed
qed

lemma loop_exhausted:
  assumes "\<forall>p. fst (modal_step pg ap job p) = Inr Continue"
  shows "step \<le> max_steps \<Longrightarrow>
         \<exists>p'. complete_application_modal_loop pg ap job step p = (max_steps, Inr False, p')"
proof (induction "max_steps - step" arbitrary: step p)
  case 0
  then have "\<not> step < max_steps" "step = max_steps" by simp_all
  then show ?case
    by (subst complete_application_modal_loop.simps) simp
next
  case (Suc n)
  then have lt: "step < max_steps" by simp
  from assms have "fst (modal_step pg ap job p) = Inr Continue" by blast
  then obtain p1 where m: "modal_step pg ap job p = (Inr Continue, p1)"
    by (cases "modal_step pg ap job p") auto
  from Suc have "n = max_steps - Suc step" "Suc step \<le> max_steps" by simp_all
  from Suc.hyps(1) [OF this] obtain p' where
    "complete_application_modal_loop pg ap job (Suc step) p1 = (max_steps, Inr False, p')"
    by blast
  with lt m show ?case
    by (subst complete_application_modal_loop.simps) simp
qed

text \<open>
  Claim C2. The loop of \<open>_complete_application_modal\<close> is a total function of the page
  and the world: whatever the page does, it returns, and it has started at most
  \<open>max_steps\<close> iterations by then; \<open>max_steps\<close> is the constant 10 of the source. When
  no iteration returns, all \<open>max_steps\<close> iterations run and the result is \<open>False\<close>; that
  is so on every page that never presents a success marker and never exposes a
  recognized action control.
\<close>

theorem modal_loop_bounded:
  "max_steps = 10
   \<and> fst (complete_application_modal_loop pg ap job 0 p) \<le> max_steps
   \<and> ((\<forall>p. fst (modal_step pg ap job p) = Inr Continue) \<longrightarrow>
        fst (complete_application_modal_loop pg ap job 0 p) = max_steps
        \<and> fst (snd (complete_application_modal_loop pg ap job 0 p)) = Inr False
        \<and> fst (complete_application_modal pg ap job p) = Inr False)
   \<and> (inert pg \<longrightarrow>
        (\<forall>p. fst (modal_step pg ap job p) = Inr Continue)
        \<and> fst (complete_application_modal_loop pg ap job 0 p) = max_steps
        \<and> fst (snd (complete_application_modal_loop pg ap job 0 p)) = Inr False
        \<and> fst (complete_application_modal pg ap job p) = Inr False)"
proof -
  have b: "fst (complete_application_modal_loop pg ap job 0 p) \<le> max_steps"
    by (rule loop_bound) simp
  have c: "fst (complete_application_modal_loop pg ap job 0 p) = max_steps
        \<and> fst (snd (complete_application_modal_loop pg ap job 0 p)) = Inr False
        \<and> fst (complete_application_modal pg ap job p) = Inr False"
    if "\<forall>p. fst (modal_step pg ap job p) = Inr Continue"
  proof -
    from loop_exhausted [OF that, of 0 p] obtain p' where
      "complete_application_modal_loop pg ap job 0 p = (max_steps, Inr False, p')" by auto
    then show ?thesis by (simp add: complete_application_modal_def)
  qed
  have i: "\<forall>p. fst (modal_step pg ap job p) = Inr Continue" if "inert pg"
  proof
    fix q
    from modal_step_inert [OF that, of ap job q] show "fst (modal_step pg ap job q) = Inr Continue"
      by auto
  qed
  from b c i show ?thesis by (simp add: max_steps_def)
qed

theorem modal_loop_bounded_witness:
  "inert blank_page
   \<and> complete_application_modal_loop blank_page test_applier test_job 0 0 = (10, Inr False, 10)
   \<and> fst (modal_step looping_page test_applier test_job 0) = Inr Continue
   \<and> complete_application_modal_loop looping_page test_applier test_job 0 0
       = (10, Inr False, 10)"
proof -
  have i: "inert blank_page"
    by (simp add: inert_def blank_page_def)
  have b: "complete_application_modal_loop blank_page test_applier test_job 0 0
             = (10, Inr False, 10)"
    by code_simp
  have m: "modal_step looping_page test_applier test_job p = (Inr Continue, Suc p)" for p
    by (simp add: modal_step_def or_else_def check_success_def check_submit_def
        fill_application_step_def fill_resume_def fill_cover_letter_def fill_phone_def
        bind_io_def return_io_def looping_page_def blank_page_def test_applier_def
        lower_def lower_char_def)
  then have c: "\<forall>p. fst (modal_step looping_page test_applier test_job p) = Inr Continue"
    by simp
  have l: "complete_application_modal_loop looping_page test_applier test_job 0 0
             = (10, Inr False, 10)"
    by code_simp
  show ?thesis
    using i b c l
      modal_loop_bounded [of blank_page test_applier test_job 0]
      modal_loop_bounded [of looping_page test_applier test_job 0]
    by simp
qed

subsection \<open>Listings that are not eligible\<close>









end
